theory Spec2Isabelle
  imports Complex_Main
begin

section \<open>Numbers and vectors\<close>

text \<open>
  The script computes with JavaScript numbers (IEEE doubles). This development reads
  every number as a real: arithmetic is exact, there is no rounding, no infinity and
  no NaN. What is proved is the algebraic content of the script: which quantities are
  combined and in which order, which timers exist, what is recorded. The special values
  are read separately, as \<open>jsnum\<close> below, for what the script does around a division
  by zero.

  \<open>THREE.Vector3\<close> is not part of the script. The methods the script calls are
  modelled after the library's own one-line definitions:
  \<^verbatim>\<open>
  lengthSq()         x*x + y*y + z*z
  length()           Math.sqrt(x*x + y*y + z*z)
  multiplyScalar(s)  x *= s; y *= s; z *= s
  divideScalar(s)    multiplyScalar(1 / s)
  normalize()        divideScalar(length() || 1)
  negate()           x = -x; y = -y; z = -z
  add(v)             x += v.x; ...
  addScaledVector(v, s)  x += v.x * s; ...
  lerp(v, alpha)     x += (v.x - x) * alpha; ...
  \<close>
  A method that mutates its receiver returns the new vector here.
\<close>

datatype Vector3 = Vector3 (x: real) (y: real) (z: real)

definition lengthSq :: "Vector3 \<Rightarrow> real" where
  "lengthSq v = x v * x v + y v * y v + z v * z v"

definition length_V3 :: "Vector3 \<Rightarrow> real" where
  "length_V3 v = sqrt (x v * x v + y v * y v + z v * z v)"

definition multiplyScalar :: "Vector3 \<Rightarrow> real \<Rightarrow> Vector3" where
  "multiplyScalar v s = Vector3 (x v * s) (y v * s) (z v * s)"

definition divideScalar :: "Vector3 \<Rightarrow> real \<Rightarrow> Vector3" where
  "divideScalar v s = multiplyScalar v (1 / s)"

text \<open>\<open>length() || 1\<close>: the divisor of \<open>normalize\<close>; 1 stands in for a length of 0.\<close>

definition normalize_divisor :: "Vector3 \<Rightarrow> real" where
  "normalize_divisor v = (if length_V3 v = 0 then 1 else length_V3 v)"

definition normalize_V3 :: "Vector3 \<Rightarrow> Vector3" where
  "normalize_V3 v = divideScalar v (normalize_divisor v)"

definition negate :: "Vector3 \<Rightarrow> Vector3" where
  "negate v = Vector3 (- x v) (- y v) (- z v)"

definition addScaledVector :: "Vector3 \<Rightarrow> Vector3 \<Rightarrow> real \<Rightarrow> Vector3" where
  "addScaledVector a v s = Vector3 (x a + x v * s) (y a + y v * s) (z a + z v * s)"

definition add_V3 :: "Vector3 \<Rightarrow> Vector3 \<Rightarrow> Vector3" where
  "add_V3 a v = Vector3 (x a + x v) (y a + y v) (z a + z v)"

definition lerp :: "Vector3 \<Rightarrow> Vector3 \<Rightarrow> real \<Rightarrow> Vector3" where
  "lerp a v alpha =
     Vector3 (x a + (x v - x a) * alpha) (y a + (y v - y a) * alpha) (z a + (z v - z a) * alpha)"

section \<open>The page's state\<close>

text \<open>The \<open>options\<close> object bound to the control panel (its numeric fields).\<close>

record gui_options =
  speed :: real
  rho :: real
  C_d :: real
  mass :: real
  area :: real

text \<open>
  What \<open>orbitControls.update()\<close> reads and writes: the orbit target and the camera's
  position and rotation (the Euler angles, as a vector).
\<close>

record orbit_view =
  target :: Vector3
  camera_position :: Vector3
  camera_rotation :: Vector3

text \<open>
  The variables the arrow function of \<open>animateEnd\<close> closes over: \<open>frames\<close>, \<open>dist\<close>
  and \<open>center\<close>. Its fourth variable, \<open>animationInterval\<close>, is the handle under which
  the function is registered in the timer table.
\<close>

record transition =
  frames :: nat
  dist_anim :: real
  center :: Vector3

datatype callback = Step | Transition transition

text \<open>
  The repeating timers of the page: a handle maps to its callback and its period in
  milliseconds. \<open>next_timer\<close> is the handle the next \<open>setInterval\<close> returns; handles
  are never reused.
\<close>

record state =
  baseball_position :: Vector3
  velocity :: Vector3
  direction :: Vector3
  directionController_position :: Vector3
  pathPoints :: "Vector3 list"
  pathGeometry :: "Vector3 list"
  simulationInterval :: "nat option"
  timers :: "nat \<Rightarrow> (callback \<times> nat) option"
  next_timer :: nat
  orbitControls_enabled :: bool
  orbit :: orbit_view
  options :: gui_options

definition setInterval :: "callback \<Rightarrow> nat \<Rightarrow> state \<Rightarrow> nat \<times> state" where
  "setInterval cb delay s =
     (next_timer s,
      s\<lparr>timers := (timers s)(next_timer s \<mapsto> (cb, delay)), next_timer := Suc (next_timer s)\<rparr>)"

text \<open>\<open>clearInterval(undefined)\<close> and \<open>clearInterval\<close> of a stopped timer do nothing.\<close>

definition clearInterval :: "nat option \<Rightarrow> state \<Rightarrow> state" where
  "clearInterval h s = (case h of None \<Rightarrow> s | Some i \<Rightarrow> s\<lparr>timers := (timers s)(i := None)\<rparr>)"

section \<open>The script's functions\<close>

text \<open>The constants \<open>dt\<close> (line 100) and \<open>length\<close> (line 150).\<close>

definition dt :: nat where
  "dt = 16"

definition length_anim :: nat where
  "length_anim = 40"

text \<open>
  \<open>render\<close> (lines 84 to 92): the throw direction follows the handle, normalized, every
  frame. What it draws is not modelled.
\<close>

definition render :: "state \<Rightarrow> state" where
  "render s = s\<lparr>direction := normalize_V3 (directionController_position s)\<rparr>"

text \<open>\<open>start\<close> (lines 103 to 115).\<close>

definition start :: "state \<Rightarrow> state" where
  "start s =
     (let s1 = clearInterval (simulationInterval s) s;
          s2 = s1\<lparr>pathGeometry := [], pathPoints := []\<rparr>;
          s3 = s2\<lparr>baseball_position := Vector3 0 0 0\<rparr>;
          s4 = s3\<lparr>velocity := multiplyScalar (direction s3) (speed (options s3))\<rparr>;
          (i, s5) = setInterval Step dt s4
      in s5\<lparr>simulationInterval := Some i\<rparr>)"

text \<open>
  \<open>animateEnd\<close> (lines 142 to 166), up to the registration of its arrow function; the
  arrow function itself is \<open>transition_frame\<close> below.
\<close>

definition animateEnd :: "state \<Rightarrow> state" where
  "animateEnd s =
     (let s1 = clearInterval (simulationInterval s) s;
          s2 = s1\<lparr>pathGeometry := pathPoints s1\<rparr>;
          s3 = s2\<lparr>orbitControls_enabled := False\<rparr>;
          c = \<lparr>frames = 0,
               dist_anim = length_V3 (baseball_position s3),
               center = multiplyScalar (baseball_position s3) 0.5\<rparr>
      in snd (setInterval (Transition c) 16 s3))"

text \<open>
  The locals of \<open>step\<close> (lines 120 to 127): \<open>a_drag\<close> from the velocity before the tick,
  \<open>a_grav\<close>, and \<open>dts\<close>.
\<close>

definition a_drag :: "gui_options \<Rightarrow> Vector3 \<Rightarrow> Vector3" where
  "a_drag opts v =
     (let f_drag = multiplyScalar (negate (normalize_V3 v))
                     (rho opts * lengthSq v * C_d opts * area opts / 2)
      in multiplyScalar f_drag (mass opts))"

definition a_grav :: Vector3 where
  "a_grav = Vector3 0 (- 9.8) 0"

definition dts :: real where
  "dts = real dt / 1000"

text \<open>
  \<open>step\<close> (lines 118 to 139), with \<open>orbitControls.update()\<close> as the parameter \<open>upd\<close>:
  the library function is applied to the view the script has just written.
\<close>

definition step :: "(orbit_view \<Rightarrow> orbit_view) \<Rightarrow> state \<Rightarrow> state" where
  "step upd s =
     (let s1 = s\<lparr>pathPoints := pathPoints s @ [baseball_position s]\<rparr>;
          v1 = addScaledVector (velocity s1) a_grav dts;
          v2 = addScaledVector v1 (a_drag (options s1) (velocity s1)) dts;
          s2 = s1\<lparr>velocity := v2\<rparr>;
          s3 = s2\<lparr>baseball_position := addScaledVector (baseball_position s2) (velocity s2) dts\<rparr>;
          s4 = s3\<lparr>orbit := upd ((orbit s3)\<lparr>target := baseball_position s3\<rparr>)\<rparr>
      in if y (baseball_position s4) \<le> 0 then animateEnd s4 else s4)"

text \<open>
  The view one step of the camera transition hands to \<open>orbitControls.update()\<close>
  (lines 154 to 158).
\<close>

definition transition_view :: "transition \<Rightarrow> orbit_view \<Rightarrow> orbit_view" where
  "transition_view c v =
     (let t = lerp (target v) (center c) 0.1;
          p = Vector3 (x t) (max (dist_anim c) 2) (z t)
      in v\<lparr>target := t, camera_position := p, camera_rotation := Vector3 0 (- 1) 1\<rparr>)"

text \<open>
  The arrow function of \<open>animateEnd\<close> (lines 153 to 165), registered under handle \<open>i\<close>
  with period \<open>d\<close> and closing over \<open>c\<close>; \<open>++frames\<close> is written back to the table.
\<close>

definition transition_frame ::
  "(orbit_view \<Rightarrow> orbit_view) \<Rightarrow> nat \<Rightarrow> transition \<Rightarrow> nat \<Rightarrow> state \<Rightarrow> state" where
  "transition_frame upd i c d s =
     (let s1 = s\<lparr>orbit := upd (transition_view c (orbit s))\<rparr>;
          c' = c\<lparr>frames := Suc (frames c)\<rparr>;
          s2 = s1\<lparr>timers := (timers s1)(i \<mapsto> (Transition c', d))\<rparr>
      in if frames c' = length_anim
         then (clearInterval (Some i) s2)\<lparr>orbitControls_enabled := True\<rparr>
         else s2)"

section \<open>The event loop\<close>

text \<open>
  Everything that runs after the script is loaded runs from an event: an animation
  frame, the panel's start button, a timer that fires, a gesture on the direction handle
  (\<open>dragstart\<close>, a move of the handle, \<open>dragend\<close>; lines 64 to 70), an edit of the
  panel's numbers, or an orbit gesture, which the controls ignore while they are disabled
  and which otherwise leaves some view. Firing a handle that is not registered does
  nothing. Callbacks run to completion, one at a time.
\<close>

datatype event =
    Render
  | Start
  | Fire nat
  | DragStart
  | Drag Vector3
  | DragEnd
  | Edit gui_options
  | OrbitGesture orbit_view

definition exec :: "(orbit_view \<Rightarrow> orbit_view) \<Rightarrow> state \<Rightarrow> event \<Rightarrow> state" where
  "exec upd s e =
     (case e of
        Render \<Rightarrow> render s
      | Start \<Rightarrow> start s
      | Fire i \<Rightarrow>
          (case timers s i of
             None \<Rightarrow> s
           | Some (Step, d) \<Rightarrow> step upd s
           | Some (Transition c, d) \<Rightarrow> transition_frame upd i c d s)
      | DragStart \<Rightarrow> s\<lparr>orbitControls_enabled := False\<rparr>
      | Drag p \<Rightarrow> s\<lparr>directionController_position := p\<rparr>
      | DragEnd \<Rightarrow> s\<lparr>orbitControls_enabled := True\<rparr>
      | Edit opts \<Rightarrow> s\<lparr>options := opts\<rparr>
      | OrbitGesture v \<Rightarrow> (if orbitControls_enabled s then s\<lparr>orbit := v\<rparr> else s))"

definition run :: "(orbit_view \<Rightarrow> orbit_view) \<Rightarrow> state \<Rightarrow> event list \<Rightarrow> state" where
  "run upd s es = foldl (exec upd) s es"

text \<open>
  The state once the script has been evaluated: the module's initial values, the
  \<open>update()\<close> that ends the controls' constructor, and the first call of \<open>render\<close>.
\<close>

definition initial :: "(orbit_view \<Rightarrow> orbit_view) \<Rightarrow> state" where
  "initial upd =
     \<lparr>baseball_position = Vector3 0 0 0,
      velocity = Vector3 0 0 0,
      direction = Vector3 0 1 0,
      directionController_position = Vector3 0 0 0,
      pathPoints = [],
      pathGeometry = [],
      simulationInterval = None,
      timers = (\<lambda>i. None),
      next_timer = 1,
      orbitControls_enabled = True,
      orbit = upd \<lparr>target = Vector3 0 0 0, camera_position = Vector3 0 1 1,
                   camera_rotation = Vector3 0 0 0\<rparr>,
      options = \<lparr>speed = 10, rho = 1.2, C_d = 0.33, mass = 1.45 / 1000,
                 area = pi * (73 / 1000 / 2) ^ 2\<rparr>\<rparr>"

definition loaded :: "(orbit_view \<Rightarrow> orbit_view) \<Rightarrow> state" where
  "loaded upd = render (initial upd)"

inductive reachable :: "(orbit_view \<Rightarrow> orbit_view) \<Rightarrow> state \<Rightarrow> bool"
  for upd :: "orbit_view \<Rightarrow> orbit_view" where
    reachable_loaded: "reachable upd (loaded upd)"
  | reachable_exec: "reachable upd s \<Longrightarrow> reachable upd (exec upd s e)"

section \<open>Observers\<close>

text \<open>The three phases of the stepper, read off the simulation timer.\<close>

datatype phase = IDLE | RUNNING | LANDED

definition phase_of :: "state \<Rightarrow> phase" where
  "phase_of s =
     (case simulationInterval s of
        None \<Rightarrow> IDLE
      | Some i \<Rightarrow> (case timers s i of Some (Step, d) \<Rightarrow> RUNNING | _ \<Rightarrow> LANDED))"

text \<open>An event is a tick when it fires a timer whose callback is \<open>step\<close>.\<close>

definition is_tick :: "state \<Rightarrow> event \<Rightarrow> bool" where
  "is_tick s e = (case e of Fire i \<Rightarrow> (case timers s i of Some (Step, d) \<Rightarrow> True | _ \<Rightarrow> False) | _ \<Rightarrow> False)"

text \<open>The number of ticks executed along a run, and the positions they start from.\<close>

fun ticks_executed :: "(orbit_view \<Rightarrow> orbit_view) \<Rightarrow> state \<Rightarrow> event list \<Rightarrow> nat" where
  "ticks_executed upd s [] = 0"
| "ticks_executed upd s (e # es) =
     (if is_tick s e then 1 else 0) + ticks_executed upd (exec upd s e) es"

fun recorded :: "(orbit_view \<Rightarrow> orbit_view) \<Rightarrow> state \<Rightarrow> event list \<Rightarrow> Vector3 list" where
  "recorded upd s [] = []"
| "recorded upd s (e # es) =
     (if is_tick s e then [baseball_position s] else []) @ recorded upd (exec upd s e) es"

text \<open>
  An event is a step of the camera transition of handle \<open>i\<close> when it fires \<open>i\<close> while
  \<open>i\<close> is registered with the arrow function of \<open>animateEnd\<close>.
\<close>

definition is_frame :: "nat \<Rightarrow> state \<Rightarrow> event \<Rightarrow> bool" where
  "is_frame i s e =
     (case e of
        Fire j \<Rightarrow> j = i \<and> (case timers s i of Some (Transition c, d) \<Rightarrow> True | _ \<Rightarrow> False)
      | _ \<Rightarrow> False)"

fun frames_executed :: "(orbit_view \<Rightarrow> orbit_view) \<Rightarrow> nat \<Rightarrow> state \<Rightarrow> event list \<Rightarrow> nat" where
  "frames_executed upd i s [] = 0"
| "frames_executed upd i s (e # es) =
     (if is_frame i s e then 1 else 0) + frames_executed upd i (exec upd s e) es"

text \<open>
  The invariant of the timer table: every registered handle has been handed out, a
  timer that runs \<open>step\<close> is the one \<open>simulationInterval\<close> holds, and the handle in
  \<open>simulationInterval\<close> has been handed out and is not that of a camera transition.
\<close>

definition timers_ok :: "state \<Rightarrow> bool" where
  "timers_ok s \<longleftrightarrow>
     (\<forall>i cb d. timers s i = Some (cb, d) \<longrightarrow> i < next_timer s) \<and>
     (\<forall>i d. timers s i = Some (Step, d) \<longrightarrow> simulationInterval s = Some i) \<and>
     (\<forall>j. simulationInterval s = Some j \<longrightarrow>
          j < next_timer s \<and> (\<forall>c d. timers s j \<noteq> Some (Transition c, d)))"

text \<open>No timer runs \<open>step\<close>.\<close>

definition stopped :: "state \<Rightarrow> bool" where
  "stopped s \<longleftrightarrow> (\<forall>i d. timers s i \<noteq> Some (Step, d))"

text \<open>
  Nothing is recorded yet and the ball is at the origin, or the first recorded point is
  the origin.
\<close>

definition origin_first :: "state \<Rightarrow> bool" where
  "origin_first s \<longleftrightarrow>
     (pathPoints s = [] \<and> baseball_position s = Vector3 0 0 0) \<or>
     (pathPoints s \<noteq> [] \<and> hd (pathPoints s) = Vector3 0 0 0)"

section \<open>A sample throw\<close>

text \<open>
  A slow lob in still air, used to run the script on concrete numbers: the handle is
  dragged straight up and a frame is rendered, the panel is set to speed \<open>0.2\<close> and air
  density \<open>0\<close>, and the identity stands for \<open>orbitControls.update()\<close>. Started from
  there, the ball is above the floor after one tick and below it after two.
\<close>

definition lob_options :: gui_options where
  "lob_options = \<lparr>speed = 1 / 5, rho = 0, C_d = 1, mass = 1, area = 1\<rparr>"

definition lob_ready :: state where
  "lob_ready = run (\<lambda>v. v) (loaded (\<lambda>v. v)) [Drag (Vector3 0 2 0), Render, Edit lob_options]"

definition lob_started :: state where
  "lob_started = exec (\<lambda>v. v) lob_ready Start"

definition lob_flying :: state where
  "lob_flying = exec (\<lambda>v. v) lob_started (Fire 1)"

definition lob_landed :: state where
  "lob_landed = exec (\<lambda>v. v) lob_flying (Fire 1)"

section \<open>JavaScript numbers with their special values\<close>

text \<open>
  A real cannot be \<open>NaN\<close> and in HOL \<open>a / 0 = 0\<close>, so what the script does around a
  division by zero needs a closer reading of its numbers. \<open>jsnum\<close> adds \<open>Infinity\<close>,
  \<open>-Infinity\<close> and \<open>NaN\<close> to the reals, with the IEEE results of \<open>-\<close>, \<open>+\<close>, \<open>*\<close>, \<open>/\<close>
  and \<open>Math.sqrt\<close> on them: \<open>0 * Infinity\<close>, \<open>0 / 0\<close>, \<open>Infinity - Infinity\<close> and
  \<open>Infinity / Infinity\<close> are \<open>NaN\<close>, \<open>a / 0\<close> is infinite for \<open>a\<close> other than 0, and
  \<open>NaN\<close> spreads. Finite results stay exact: there is no rounding and no overflow, and
  the two zeros are one (the script divides only by \<open>length() || 1\<close>, by 2 and by 1000,
  so the sign of a zero decides no result; a zero divisor counts as \<open>+0\<close>).
\<close>

datatype jsnum = Fin real | PInf | NInf | NaN

fun jneg :: "jsnum \<Rightarrow> jsnum" where
  "jneg (Fin a) = Fin (- a)"
| "jneg PInf = NInf"
| "jneg NInf = PInf"
| "jneg NaN = NaN"

fun jadd :: "jsnum \<Rightarrow> jsnum \<Rightarrow> jsnum" where
  "jadd NaN b = NaN"
| "jadd a NaN = NaN"
| "jadd (Fin a) (Fin b) = Fin (a + b)"
| "jadd PInf NInf = NaN"
| "jadd NInf PInf = NaN"
| "jadd PInf b = PInf"
| "jadd a PInf = PInf"
| "jadd NInf b = NInf"
| "jadd a NInf = NInf"

fun jmul :: "jsnum \<Rightarrow> jsnum \<Rightarrow> jsnum" where
  "jmul NaN b = NaN"
| "jmul a NaN = NaN"
| "jmul (Fin a) (Fin b) = Fin (a * b)"
| "jmul (Fin a) PInf = (if a = 0 then NaN else if 0 < a then PInf else NInf)"
| "jmul (Fin a) NInf = (if a = 0 then NaN else if 0 < a then NInf else PInf)"
| "jmul PInf (Fin b) = (if b = 0 then NaN else if 0 < b then PInf else NInf)"
| "jmul NInf (Fin b) = (if b = 0 then NaN else if 0 < b then NInf else PInf)"
| "jmul PInf PInf = PInf"
| "jmul PInf NInf = NInf"
| "jmul NInf PInf = NInf"
| "jmul NInf NInf = PInf"

fun jdiv :: "jsnum \<Rightarrow> jsnum \<Rightarrow> jsnum" where
  "jdiv NaN b = NaN"
| "jdiv a NaN = NaN"
| "jdiv (Fin a) (Fin b) =
     (if b = 0 then (if a = 0 then NaN else if 0 < a then PInf else NInf) else Fin (a / b))"
| "jdiv (Fin a) PInf = Fin 0"
| "jdiv (Fin a) NInf = Fin 0"
| "jdiv PInf (Fin b) = (if 0 \<le> b then PInf else NInf)"
| "jdiv NInf (Fin b) = (if 0 \<le> b then NInf else PInf)"
| "jdiv PInf PInf = NaN"
| "jdiv PInf NInf = NaN"
| "jdiv NInf PInf = NaN"
| "jdiv NInf NInf = NaN"

fun jsqrt :: "jsnum \<Rightarrow> jsnum" where
  "jsqrt (Fin a) = (if a < 0 then NaN else Fin (sqrt a))"
| "jsqrt PInf = PInf"
| "jsqrt NInf = NaN"
| "jsqrt NaN = NaN"

text \<open>\<open>a || b\<close> on numbers: \<open>0\<close> and \<open>NaN\<close> are the falsy ones.\<close>

definition jor :: "jsnum \<Rightarrow> jsnum \<Rightarrow> jsnum" where
  "jor a b = (if a = Fin 0 \<or> a = NaN then b else a)"

text \<open>The vector methods of the first section, on these numbers.\<close>

datatype Vector3_js = Vector3_js (x_js: jsnum) (y_js: jsnum) (z_js: jsnum)

definition lengthSq_js :: "Vector3_js \<Rightarrow> jsnum" where
  "lengthSq_js v =
     jadd (jadd (jmul (x_js v) (x_js v)) (jmul (y_js v) (y_js v))) (jmul (z_js v) (z_js v))"

definition length_js :: "Vector3_js \<Rightarrow> jsnum" where
  "length_js v =
     jsqrt (jadd (jadd (jmul (x_js v) (x_js v)) (jmul (y_js v) (y_js v))) (jmul (z_js v) (z_js v)))"

definition multiplyScalar_js :: "Vector3_js \<Rightarrow> jsnum \<Rightarrow> Vector3_js" where
  "multiplyScalar_js v s = Vector3_js (jmul (x_js v) s) (jmul (y_js v) s) (jmul (z_js v) s)"

definition divideScalar_js :: "Vector3_js \<Rightarrow> jsnum \<Rightarrow> Vector3_js" where
  "divideScalar_js v s = multiplyScalar_js v (jdiv (Fin 1) s)"

definition normalize_divisor_js :: "Vector3_js \<Rightarrow> jsnum" where
  "normalize_divisor_js v = jor (length_js v) (Fin 1)"

definition normalize_js :: "Vector3_js \<Rightarrow> Vector3_js" where
  "normalize_js v = divideScalar_js v (normalize_divisor_js v)"

definition negate_js :: "Vector3_js \<Rightarrow> Vector3_js" where
  "negate_js v = Vector3_js (jneg (x_js v)) (jneg (y_js v)) (jneg (z_js v))"

definition addScaledVector_js :: "Vector3_js \<Rightarrow> Vector3_js \<Rightarrow> jsnum \<Rightarrow> Vector3_js" where
  "addScaledVector_js a v s =
     Vector3_js (jadd (x_js a) (jmul (x_js v) s)) (jadd (y_js a) (jmul (y_js v) s))
       (jadd (z_js a) (jmul (z_js v) s))"

text \<open>The numeric fields of \<open>options\<close>, each of which may hold any number.\<close>

record options_js =
  speed_js :: jsnum
  rho_js :: jsnum
  C_d_js :: jsnum
  mass_js :: jsnum
  area_js :: jsnum

text \<open>
  The arithmetic of \<open>step\<close> (lines 120 to 131) on these numbers: from the position and
  the velocity before the tick to the position and the velocity after it.
\<close>

definition dts_js :: jsnum where
  "dts_js = jdiv (Fin (real dt)) (Fin 1000)"

definition a_grav_js :: Vector3_js where
  "a_grav_js = Vector3_js (Fin 0) (Fin (- 9.8)) (Fin 0)"

definition a_drag_js :: "options_js \<Rightarrow> Vector3_js \<Rightarrow> Vector3_js" where
  "a_drag_js opts v =
     (let f_drag = multiplyScalar_js (negate_js (normalize_js v))
                     (jdiv (jmul (jmul (jmul (rho_js opts) (lengthSq_js v)) (C_d_js opts))
                              (area_js opts)) (Fin 2))
      in multiplyScalar_js f_drag (mass_js opts))"

definition step_js :: "options_js \<Rightarrow> Vector3_js \<times> Vector3_js \<Rightarrow> Vector3_js \<times> Vector3_js" where
  "step_js opts pv =
     (let p = fst pv; v = snd pv;
          v1 = addScaledVector_js v a_grav_js dts_js;
          v2 = addScaledVector_js v1 (a_drag_js opts v) dts_js;
          p' = addScaledVector_js p v2 dts_js
      in (p', v2))"

text \<open>Real vectors and options as finite JavaScript values.\<close>

definition js_of :: "Vector3 \<Rightarrow> Vector3_js" where
  "js_of v = Vector3_js (Fin (x v)) (Fin (y v)) (Fin (z v))"

definition js_of_options :: "gui_options \<Rightarrow> options_js" where
  "js_of_options opts =
     \<lparr>speed_js = Fin (speed opts), rho_js = Fin (rho opts), C_d_js = Fin (C_d opts),
      mass_js = Fin (mass opts), area_js = Fin (area opts)\<rparr>"

text \<open>Finite numbers, and vectors with a \<open>NaN\<close> component.\<close>

definition finite_js :: "jsnum \<Rightarrow> bool" where
  "finite_js a = (case a of Fin r \<Rightarrow> True | _ \<Rightarrow> False)"

definition finite_Vector3 :: "Vector3_js \<Rightarrow> bool" where
  "finite_Vector3 v \<longleftrightarrow> finite_js (x_js v) \<and> finite_js (y_js v) \<and> finite_js (z_js v)"

definition finite_options :: "options_js \<Rightarrow> bool" where
  "finite_options opts \<longleftrightarrow>
     finite_js (rho_js opts) \<and> finite_js (C_d_js opts) \<and> finite_js (mass_js opts) \<and>
     finite_js (area_js opts)"

definition has_NaN :: "Vector3_js \<Rightarrow> bool" where
  "has_NaN v \<longleftrightarrow> x_js v = NaN \<or> y_js v = NaN \<or> z_js v = NaN"

section \<open>Vector facts\<close>

lemma normalize_divisor_nonzero: "normalize_divisor v \<noteq> 0"
  by (simp add: normalize_divisor_def)

lemma lengthSq_nonneg: "0 \<le> lengthSq v"
  by (simp add: lengthSq_def)

lemma length_V3_sq: "(length_V3 v)\<^sup>2 = lengthSq v"
  by (simp add: length_V3_def lengthSq_def)

lemma length_V3_sqrt: "length_V3 v = sqrt (lengthSq v)"
  by (simp add: length_V3_def lengthSq_def)

lemma length_V3_nonneg: "0 \<le> length_V3 v"
  by (simp add: length_V3_def)

lemma lengthSq_multiplyScalar: "lengthSq (multiplyScalar v s) = s\<^sup>2 * lengthSq v"
  by (simp add: lengthSq_def multiplyScalar_def power2_eq_square algebra_simps)

lemma length_V3_multiplyScalar: "length_V3 (multiplyScalar v s) = \<bar>s\<bar> * length_V3 v"
  by (simp add: length_V3_sqrt lengthSq_multiplyScalar real_sqrt_mult)

lemma length_V3_negate: "length_V3 (negate v) = length_V3 v"
  by (simp add: length_V3_def negate_def)

lemma length_V3_zero_iff: "length_V3 v = 0 \<longleftrightarrow> v = Vector3 0 0 0"
proof -
  have "x v * x v + y v * y v + z v * z v = 0 \<longleftrightarrow> x v = 0 \<and> y v = 0 \<and> z v = 0"
    by (metis add_nonneg_eq_0_iff add_nonneg_nonneg mult_eq_0_iff zero_le_square)
  then show ?thesis
    by (cases v) (simp add: length_V3_def)
qed

lemma normalize_V3_zero: "normalize_V3 (Vector3 0 0 0) = Vector3 0 0 0"
  by (simp add: normalize_V3_def divideScalar_def multiplyScalar_def)

lemma length_V3_normalize:
  "length_V3 (normalize_V3 v) = (if v = Vector3 0 0 0 then 0 else 1)"
proof (cases "v = Vector3 0 0 0")
  case True
  then show ?thesis by (simp add: normalize_V3_zero length_V3_zero_iff)
next
  case False
  then have "length_V3 v \<noteq> 0" by (simp add: length_V3_zero_iff)
  moreover have "0 \<le> length_V3 v" by (rule length_V3_nonneg)
  ultimately show ?thesis using False
    by (simp add: normalize_V3_def divideScalar_def normalize_divisor_def length_V3_multiplyScalar)
qed

section \<open>What each function writes\<close>

lemmas script_defs = start_def animateEnd_def step_def transition_frame_def render_def
  setInterval_def clearInterval_def Let_def

lemma start_fields:
  "timers (start s) = (case simulationInterval s of
       None \<Rightarrow> (timers s)(next_timer s \<mapsto> (Step, dt))
     | Some j \<Rightarrow> ((timers s)(j := None))(next_timer s \<mapsto> (Step, dt)))"
  "next_timer (start s) = Suc (next_timer s)"
  "simulationInterval (start s) = Some (next_timer s)"
  "pathPoints (start s) = []"
  "pathGeometry (start s) = []"
  "baseball_position (start s) = Vector3 0 0 0"
  "velocity (start s) = multiplyScalar (direction s) (speed (options s))"
  "direction (start s) = direction s"
  "directionController_position (start s) = directionController_position s"
  "options (start s) = options s"
  "orbitControls_enabled (start s) = orbitControls_enabled s"
  "orbit (start s) = orbit s"
  by (simp_all add: script_defs split: option.splits)

lemma animateEnd_fields:
  "timers (animateEnd s) = (case simulationInterval s of
       None \<Rightarrow> (timers s)(next_timer s \<mapsto>
          (Transition \<lparr>frames = 0, dist_anim = length_V3 (baseball_position s),
                       center = multiplyScalar (baseball_position s) 0.5\<rparr>, 16))
     | Some j \<Rightarrow> ((timers s)(j := None))(next_timer s \<mapsto>
          (Transition \<lparr>frames = 0, dist_anim = length_V3 (baseball_position s),
                       center = multiplyScalar (baseball_position s) 0.5\<rparr>, 16)))"
  "next_timer (animateEnd s) = Suc (next_timer s)"
  "simulationInterval (animateEnd s) = simulationInterval s"
  "pathPoints (animateEnd s) = pathPoints s"
  "pathGeometry (animateEnd s) = pathPoints s"
  "baseball_position (animateEnd s) = baseball_position s"
  "velocity (animateEnd s) = velocity s"
  "direction (animateEnd s) = direction s"
  "directionController_position (animateEnd s) = directionController_position s"
  "options (animateEnd s) = options s"
  "orbitControls_enabled (animateEnd s) = False"
  "orbit (animateEnd s) = orbit s"
  by (simp_all add: script_defs split: option.splits)

lemma step_fields:
  "velocity (step upd s) =
     addScaledVector (addScaledVector (velocity s) a_grav dts) (a_drag (options s) (velocity s)) dts"
  "baseball_position (step upd s) = addScaledVector (baseball_position s) (velocity (step upd s)) dts"
  "pathPoints (step upd s) = pathPoints s @ [baseball_position s]"
  "pathGeometry (step upd s) =
     (if y (baseball_position (step upd s)) \<le> 0 then pathPoints s @ [baseball_position s]
      else pathGeometry s)"
  "simulationInterval (step upd s) = simulationInterval s"
  "direction (step upd s) = direction s"
  "directionController_position (step upd s) = directionController_position s"
  "orbit (step upd s) = upd ((orbit s)\<lparr>target := baseball_position (step upd s)\<rparr>)"
  "options (step upd s) = options s"
  "next_timer (step upd s) =
     (if y (baseball_position (step upd s)) \<le> 0 then Suc (next_timer s) else next_timer s)"
  "orbitControls_enabled (step upd s) =
     (if y (baseball_position (step upd s)) \<le> 0 then False else orbitControls_enabled s)"
  by (simp_all add: step_def Let_def animateEnd_fields)

lemma step_timers:
  "timers (step upd s) =
     (if y (baseball_position (step upd s)) \<le> 0
      then (case simulationInterval s of
              None \<Rightarrow> (timers s)(next_timer s \<mapsto>
                (Transition \<lparr>frames = 0, dist_anim = length_V3 (baseball_position (step upd s)),
                  center = multiplyScalar (baseball_position (step upd s)) 0.5\<rparr>, 16))
            | Some j \<Rightarrow> ((timers s)(j := None))(next_timer s \<mapsto>
                (Transition \<lparr>frames = 0, dist_anim = length_V3 (baseball_position (step upd s)),
                  center = multiplyScalar (baseball_position (step upd s)) 0.5\<rparr>, 16)))
      else timers s)"
proof -
  have pos: "baseball_position (step upd s) =
      addScaledVector (baseball_position s)
        (addScaledVector (addScaledVector (velocity s) a_grav dts)
           (a_drag (options s) (velocity s)) dts) dts"
    by (simp add: step_fields)
  show ?thesis
    unfolding pos by (simp add: step_def Let_def animateEnd_fields split: option.splits)
qed

lemma transition_frame_fields:
  "timers (transition_frame upd i c d s) =
     (if Suc (frames c) = length_anim then (timers s)(i := None)
      else (timers s)(i \<mapsto> (Transition (c\<lparr>frames := Suc (frames c)\<rparr>), d)))"
  "next_timer (transition_frame upd i c d s) = next_timer s"
  "simulationInterval (transition_frame upd i c d s) = simulationInterval s"
  "pathPoints (transition_frame upd i c d s) = pathPoints s"
  "pathGeometry (transition_frame upd i c d s) = pathGeometry s"
  "baseball_position (transition_frame upd i c d s) = baseball_position s"
  "velocity (transition_frame upd i c d s) = velocity s"
  "direction (transition_frame upd i c d s) = direction s"
  "directionController_position (transition_frame upd i c d s) = directionController_position s"
  "options (transition_frame upd i c d s) = options s"
  "orbitControls_enabled (transition_frame upd i c d s) =
     (if Suc (frames c) = length_anim then True else orbitControls_enabled s)"
  "orbit (transition_frame upd i c d s) = upd (transition_view c (orbit s))"
  by (simp_all add: transition_frame_def clearInterval_def Let_def)

section \<open>The timer invariant\<close>

lemma timers_ok_start: "timers_ok s \<Longrightarrow> timers_ok (start s)"
  unfolding timers_ok_def
  by (auto simp add: start_fields less_Suc_eq split: option.splits if_splits)

lemma timers_ok_step: "timers_ok s \<Longrightarrow> timers_ok (step upd s)"
  unfolding timers_ok_def
  by (auto simp add: step_fields step_timers less_Suc_eq split: option.splits if_splits)

lemma timers_ok_transition_frame:
  "timers_ok s \<Longrightarrow> timers s i = Some (Transition c, d) \<Longrightarrow> timers_ok (transition_frame upd i c d s)"
  unfolding timers_ok_def
  by (auto simp add: transition_frame_fields split: option.splits if_splits)

lemma timers_ok_exec: "timers_ok s \<Longrightarrow> timers_ok (exec upd s e)"
proof (cases e)
  case (Fire i)
  assume ok: "timers_ok s"
  show ?thesis
  proof (cases "timers s i")
    case None
    with Fire ok show ?thesis by (simp add: exec_def)
  next
    case (Some p)
    obtain cb d where p: "p = (cb, d)" by (cases p)
    show ?thesis
    proof (cases cb)
      case Step
      with Fire Some p ok show ?thesis by (simp add: exec_def timers_ok_step)
    next
      case (Transition c)
      with Fire Some p ok show ?thesis by (simp add: exec_def timers_ok_transition_frame)
    qed
  qed
next
  case Start
  assume "timers_ok s"
  with Start show ?thesis by (simp add: exec_def timers_ok_start)
qed (simp_all add: exec_def render_def timers_ok_def)

lemma timers_ok_loaded: "timers_ok (loaded upd)"
  by (simp add: timers_ok_def loaded_def initial_def render_def)

lemma reachable_timers_ok: "reachable upd s \<Longrightarrow> timers_ok s"
  by (induction rule: reachable.induct) (simp_all add: timers_ok_loaded timers_ok_exec)

lemma timers_ok_run: "timers_ok s \<Longrightarrow> timers_ok (run upd s es)"
  by (induction es arbitrary: s) (simp_all add: run_def timers_ok_exec)

lemma reachable_run: "reachable upd s \<Longrightarrow> reachable upd (run upd s es)"
  by (induction es arbitrary: s) (simp_all add: run_def reachable_exec)

section \<open>Runs\<close>

lemma run_Nil: "run upd s [] = s"
  by (simp add: run_def)

lemma run_Cons: "run upd s (e # es) = run upd (exec upd s e) es"
  by (simp add: run_def)

lemma run_append: "run upd s (es @ es') = run upd (run upd s es) es'"
  by (simp add: run_def)

lemma exec_tick: "is_tick s (Fire i) \<Longrightarrow> exec upd s (Fire i) = step upd s"
  by (auto simp add: is_tick_def exec_def split: option.splits callback.splits)

lemma is_tick_cases: "is_tick s e \<Longrightarrow> \<exists>i d. e = Fire i \<and> timers s i = Some (Step, d)"
  by (auto simp add: is_tick_def split: event.splits option.splits callback.splits)

lemma is_tick_iff: "is_tick s e \<longleftrightarrow> (\<exists>i d. e = Fire i \<and> timers s i = Some (Step, d))"
  by (auto simp add: is_tick_def split: event.splits option.splits callback.splits)

text \<open>What an event that is neither Start nor a tick leaves alone.\<close>

lemma exec_other:
  assumes "e \<noteq> Start" and "\<not> is_tick s e"
  shows "pathPoints (exec upd s e) = pathPoints s"
    and "pathGeometry (exec upd s e) = pathGeometry s"
    and "baseball_position (exec upd s e) = baseball_position s"
    and "velocity (exec upd s e) = velocity s"
    and "simulationInterval (exec upd s e) = simulationInterval s"
    and "next_timer (exec upd s e) = next_timer s"
  using assms
  by (auto simp add: exec_def is_tick_def render_def transition_frame_fields
      split: event.splits option.splits callback.splits)

lemma exec_other_Step:
  assumes "e \<noteq> Start" and "\<not> is_tick s e"
  shows "timers (exec upd s e) j = Some (Step, d) \<longleftrightarrow> timers s j = Some (Step, d)"
  using assms
  by (auto simp add: exec_def is_tick_def render_def transition_frame_fields
      split: event.splits option.splits callback.splits if_splits)

lemma exec_pathPoints:
  "e \<noteq> Start \<Longrightarrow>
   pathPoints (exec upd s e) = pathPoints s @ (if is_tick s e then [baseball_position s] else [])"
proof (cases "is_tick s e")
  case True
  then obtain i where "e = Fire i" using is_tick_cases by blast
  with True show ?thesis by (simp add: exec_tick step_fields)
next
  case False
  assume "e \<noteq> Start"
  with False show ?thesis by (simp add: exec_other)
qed

lemma run_pathPoints:
  "Start \<notin> set es \<Longrightarrow> pathPoints (run upd s es) = pathPoints s @ recorded upd s es"
proof (induction es arbitrary: s)
  case Nil
  show ?case by (simp add: run_Nil)
next
  case (Cons e es)
  then have "e \<noteq> Start" and "Start \<notin> set es" by auto
  with Cons.IH [of "exec upd s e"] show ?case
    by (simp add: run_Cons exec_pathPoints)
qed

lemma length_recorded: "length (recorded upd s es) = ticks_executed upd s es"
  by (induction es arbitrary: s) simp_all

lemma recorded_append:
  "recorded upd s (es @ es') = recorded upd s es @ recorded upd (run upd s es) es'"
  by (induction es arbitrary: s) (simp_all add: run_Nil run_Cons)

lemma ticks_executed_append:
  "ticks_executed upd s (es @ es') = ticks_executed upd s es + ticks_executed upd (run upd s es) es'"
  by (induction es arbitrary: s) (simp_all add: run_Nil run_Cons)

lemma stopped_not_tick: "stopped s \<Longrightarrow> \<not> is_tick s e"
  by (auto simp add: stopped_def is_tick_iff)

lemma stopped_exec: "stopped s \<Longrightarrow> e \<noteq> Start \<Longrightarrow> stopped (exec upd s e)"
  using exec_other_Step [of e s upd] stopped_not_tick [of s e]
  by (simp add: stopped_def)

lemma stopped_run:
  "stopped s \<Longrightarrow> Start \<notin> set es \<Longrightarrow>
   stopped (run upd s es) \<and> ticks_executed upd s es = 0 \<and>
   pathGeometry (run upd s es) = pathGeometry s \<and> pathPoints (run upd s es) = pathPoints s"
proof (induction es arbitrary: s)
  case Nil
  then show ?case by (simp add: run_Nil)
next
  case (Cons e es)
  then have e: "e \<noteq> Start" and nt: "\<not> is_tick s e" by (auto simp add: stopped_not_tick)
  from Cons.prems e have "stopped (exec upd s e)" by (simp add: stopped_exec)
  with Cons.IH [of "exec upd s e"] Cons.prems e nt show ?case
    by (simp add: run_Cons exec_other)
qed

lemma landing_tick:
  assumes ok: "timers_ok s" and tick: "is_tick s (Fire i)"
    and low: "y (baseball_position (exec upd s (Fire i))) \<le> 0"
  shows "stopped (exec upd s (Fire i))"
    and "pathGeometry (exec upd s (Fire i)) = pathPoints s @ [baseball_position s]"
    and "pathPoints (exec upd s (Fire i)) = pathPoints s @ [baseball_position s]"
proof -
  from tick obtain d where d: "timers s i = Some (Step, d)" by (auto simp add: is_tick_iff)
  with ok have sim: "simulationInterval s = Some i" by (simp add: timers_ok_def)
  from low tick have low': "y (baseball_position (step upd s)) \<le> 0" by (simp add: exec_tick)
  have "\<And>j d'. timers (step upd s) j \<noteq> Some (Step, d')"
  proof
    fix j d' assume a: "timers (step upd s) j = Some (Step, d')"
    with low' sim have "j \<noteq> i" "timers s j = Some (Step, d')"
      by (auto simp add: step_timers split: if_splits)
    with ok sim show False by (auto simp add: timers_ok_def)
  qed
  with tick show "stopped (exec upd s (Fire i))" by (simp add: exec_tick stopped_def)
  from tick low' show "pathGeometry (exec upd s (Fire i)) = pathPoints s @ [baseball_position s]"
    by (simp add: exec_tick step_fields)
  from tick show "pathPoints (exec upd s (Fire i)) = pathPoints s @ [baseball_position s]"
    by (simp add: exec_tick step_fields)
qed

lemma exec_Start: "exec upd s Start = start s"
  by (simp add: exec_def)

text \<open>The finalized path of a throw.\<close>

lemma finalized_path:
  assumes ok: "timers_ok s"
    and es1: "Start \<notin> set es1" and es2: "Start \<notin> set es2"
    and s1: "s1 = run upd (exec upd s Start) es1"
    and tick: "is_tick s1 (Fire i)"
    and low: "y (baseball_position (exec upd s1 (Fire i))) \<le> 0"
    and s2: "s2 = run upd (exec upd s1 (Fire i)) es2"
  shows "pathGeometry s2 = recorded upd (exec upd s Start) (es1 @ [Fire i])"
    and "ticks_executed upd (exec upd s1 (Fire i)) es2 = 0"
proof -
  have ok1: "timers_ok s1" using ok s1 by (simp add: timers_ok_run timers_ok_exec)
  have p1: "pathPoints s1 = recorded upd (exec upd s Start) es1"
    using es1 s1 by (simp add: run_pathPoints exec_Start start_fields)
  note land = landing_tick [OF ok1 tick low]
  from stopped_run [OF land(1) es2] s2
  have "pathGeometry s2 = pathGeometry (exec upd s1 (Fire i))"
    and t0: "ticks_executed upd (exec upd s1 (Fire i)) es2 = 0" by simp_all
  then show "pathGeometry s2 = recorded upd (exec upd s Start) (es1 @ [Fire i])"
    using land(2) p1 s1 tick by (simp add: recorded_append)
  show "ticks_executed upd (exec upd s1 (Fire i)) es2 = 0" by (rule t0)
qed

section \<open>C1: what one tick does to velocity and position\<close>

lemma normalize_divisor_pos: "0 < normalize_divisor v"
  using length_V3_nonneg [of v] by (simp add: normalize_divisor_def)

lemma multiplyScalar_twice: "multiplyScalar (multiplyScalar v a) b = multiplyScalar v (a * b)"
  by (simp add: multiplyScalar_def)

lemma multiplyScalar_negate: "multiplyScalar (negate v) a = multiplyScalar v (- a)"
  by (simp add: multiplyScalar_def negate_def)

lemma a_drag_eq:
  "a_drag opts v =
     multiplyScalar (normalize_V3 v)
       (- (0.5 * rho opts * (length_V3 v)\<^sup>2 * C_d opts * area opts * mass opts))"
  by (simp add: a_drag_def Let_def multiplyScalar_negate multiplyScalar_twice length_V3_sq)

lemma length_a_drag:
  "length_V3 (a_drag opts v) =
     \<bar>0.5 * rho opts * (length_V3 v)\<^sup>2 * C_d opts * area opts * mass opts\<bar>"
  by (simp add: a_drag_eq length_V3_multiplyScalar length_V3_normalize length_V3_zero_iff)

lemma a_drag_opposite:
  assumes "0 \<le> rho opts * C_d opts * area opts * mass opts"
  shows "\<exists>c\<ge>0. a_drag opts v = multiplyScalar v (- c)"
proof -
  define k where "k = 0.5 * rho opts * (length_V3 v)\<^sup>2 * C_d opts * area opts * mass opts"
  have "k = 0.5 * (length_V3 v)\<^sup>2 * (rho opts * C_d opts * area opts * mass opts)"
    by (simp add: k_def)
  moreover have "0 \<le> 0.5 * (length_V3 v)\<^sup>2 * (rho opts * C_d opts * area opts * mass opts)"
    using assms by (simp add: mult_nonneg_nonneg)
  ultimately have k: "0 \<le> k" by simp
  have "a_drag opts v = multiplyScalar v (- (k / normalize_divisor v))"
    by (simp add: a_drag_eq k_def normalize_V3_def divideScalar_def multiplyScalar_twice
        mult.commute)
  moreover have "0 \<le> k / normalize_divisor v"
    using k normalize_divisor_pos [of v] by simp
  ultimately show ?thesis by blast
qed

text \<open>
  Claim C1. A tick is the firing of a timer whose callback is \<open>step\<close>. After it, the
  velocity is the old velocity plus \<open>dts\<close> times the sum of gravity and the drag term,
  with \<open>dts = 0.016\<close> and gravity \<open>(0, -9.8, 0)\<close>; the position is the old position
  plus \<open>dts\<close> times the velocity just computed. The drag term is the normalized old
  velocity times \<open>-(0.5 rho |v|\<^sup>2 C_d area mass)\<close>: the mass multiplies. Its length is
  the absolute value of that product, and when the product of the four parameters is
  not negative it is a non-positive multiple of the old velocity.
\<close>

theorem tick_velocity_position:
  assumes "is_tick s (Fire i)"
  shows "velocity (exec upd s (Fire i)) =
           add_V3 (velocity s)
             (multiplyScalar (add_V3 a_grav (a_drag (options s) (velocity s))) dts)
       \<and> baseball_position (exec upd s (Fire i)) =
           add_V3 (baseball_position s) (multiplyScalar (velocity (exec upd s (Fire i))) dts)
       \<and> dts = 0.016 \<and> a_grav = Vector3 0 (- 9.8) 0
       \<and> a_drag (options s) (velocity s) =
           multiplyScalar (normalize_V3 (velocity s))
             (- (0.5 * rho (options s) * (length_V3 (velocity s))\<^sup>2 * C_d (options s)
                   * area (options s) * mass (options s)))
       \<and> length_V3 (a_drag (options s) (velocity s)) =
           \<bar>0.5 * rho (options s) * (length_V3 (velocity s))\<^sup>2 * C_d (options s)
               * area (options s) * mass (options s)\<bar>
       \<and> (0 \<le> rho (options s) * C_d (options s) * area (options s) * mass (options s) \<longrightarrow>
            (\<exists>c\<ge>0. a_drag (options s) (velocity s) = multiplyScalar (velocity s) (- c)))"
proof -
  have v: "velocity (exec upd s (Fire i)) =
      add_V3 (velocity s) (multiplyScalar (add_V3 a_grav (a_drag (options s) (velocity s))) dts)"
    using assms
    by (simp add: exec_tick step_fields addScaledVector_def add_V3_def multiplyScalar_def
        algebra_simps)
  have p: "baseball_position (exec upd s (Fire i)) =
      add_V3 (baseball_position s) (multiplyScalar (velocity (exec upd s (Fire i))) dts)"
    using assms
    by (simp add: exec_tick step_fields(2) addScaledVector_def add_V3_def multiplyScalar_def)
  have c: "dts = 0.016" "a_grav = Vector3 0 (- 9.8) 0"
    by (simp_all add: dts_def dt_def a_grav_def)
  from v p c a_drag_eq length_a_drag a_drag_opposite show ?thesis by blast
qed

text \<open>
  A throw straight up at speed 10, with \<open>rho = C_d = 1\<close>, mass \<open>1/100\<close> and area
  \<open>1/10\<close>: the drag term is \<open>(0, -0.05, 0)\<close>, and the first tick leaves the velocity
  \<open>(0, 9.8424, 0)\<close> and the position \<open>(0, 0.1574784, 0)\<close>.
\<close>

theorem tick_velocity_position_witness:
  "is_tick (run (\<lambda>v. v) (loaded (\<lambda>v. v))
       [Drag (Vector3 0 2 0), Render,
        Edit \<lparr>speed = 10, rho = 1, C_d = 1, mass = 1 / 100, area = 1 / 10\<rparr>, Start]) (Fire 1)
   \<and> velocity (run (\<lambda>v. v) (loaded (\<lambda>v. v))
       [Drag (Vector3 0 2 0), Render,
        Edit \<lparr>speed = 10, rho = 1, C_d = 1, mass = 1 / 100, area = 1 / 10\<rparr>, Start, Fire 1])
     = Vector3 0 9.8424 0
   \<and> baseball_position (run (\<lambda>v. v) (loaded (\<lambda>v. v))
       [Drag (Vector3 0 2 0), Render,
        Edit \<lparr>speed = 10, rho = 1, C_d = 1, mass = 1 / 100, area = 1 / 10\<rparr>, Start, Fire 1])
     = Vector3 0 0.1574784 0"
proof -
  define s where "s = run (\<lambda>v. v) (loaded (\<lambda>v. v))
       [Drag (Vector3 0 2 0), Render,
        Edit \<lparr>speed = 10, rho = 1, C_d = 1, mass = 1 / 100, area = 1 / 10\<rparr>, Start]"
  have t: "timers s 1 = Some (Step, 16)"
    by (simp add: s_def run_def exec_def start_fields render_def loaded_def initial_def dt_def)
  then have tick: "is_tick s (Fire 1)" by (simp add: is_tick_def)
  have vel: "velocity s = Vector3 0 10 0"
    by (simp add: s_def run_def exec_def start_fields render_def loaded_def initial_def
        normalize_V3_def normalize_divisor_def divideScalar_def multiplyScalar_def length_V3_def)
  have pos: "baseball_position s = Vector3 0 0 0"
    by (simp add: s_def run_def exec_def start_fields)
  have opts: "options s = \<lparr>speed = 10, rho = 1, C_d = 1, mass = 1 / 100, area = 1 / 10\<rparr>"
    by (simp add: s_def run_def exec_def start_fields render_def)
  have nv: "normalize_V3 (Vector3 0 10 0) = Vector3 0 1 0"
    by (simp add: normalize_V3_def normalize_divisor_def divideScalar_def multiplyScalar_def
        length_V3_def)
  have lv: "length_V3 (Vector3 0 10 0) = 10"
    by (simp add: length_V3_def)
  have r: "run (\<lambda>v. v) (loaded (\<lambda>v. v))
       [Drag (Vector3 0 2 0), Render,
        Edit \<lparr>speed = 10, rho = 1, C_d = 1, mass = 1 / 100, area = 1 / 10\<rparr>, Start, Fire 1]
     = exec (\<lambda>v. v) s (Fire 1)"
    by (simp add: s_def run_def)
  note T = tick_velocity_position [OF tick, of "\<lambda>v. v"]
  from T have e1: "velocity (exec (\<lambda>v. v) s (Fire 1)) =
      add_V3 (velocity s) (multiplyScalar (add_V3 a_grav (a_drag (options s) (velocity s))) dts)"
    by blast
  from T have e2: "baseball_position (exec (\<lambda>v. v) s (Fire 1)) =
      add_V3 (baseball_position s) (multiplyScalar (velocity (exec (\<lambda>v. v) s (Fire 1))) dts)"
    by blast
  from T have e3: "dts = 0.016" and e4: "a_grav = Vector3 0 (- 9.8) 0"
    by blast+
  from T have e5: "a_drag (options s) (velocity s) =
      multiplyScalar (normalize_V3 (velocity s))
        (- (0.5 * rho (options s) * (length_V3 (velocity s))\<^sup>2 * C_d (options s)
              * area (options s) * mass (options s)))"
    by blast
  have d: "a_drag (options s) (velocity s) = Vector3 0 (- (1 / 20)) 0"
    unfolding e5 by (simp add: vel opts nv lv multiplyScalar_def)
  have v': "velocity (exec (\<lambda>v. v) s (Fire 1)) = Vector3 0 9.8424 0"
    unfolding e1 d e3 e4 by (simp add: vel add_V3_def multiplyScalar_def)
  have p': "baseball_position (exec (\<lambda>v. v) s (Fire 1)) = Vector3 0 0.1574784 0"
    unfolding e2 v' e3 by (simp add: pos add_V3_def multiplyScalar_def)
  from tick v' p' show ?thesis unfolding r s_def [symmetric] by simp
qed

section \<open>C9: a tick at velocity zero\<close>

lemma a_drag_zero: "a_drag opts (Vector3 0 0 0) = Vector3 0 0 0"
  by (simp add: a_drag_def Let_def normalize_V3_zero negate_def multiplyScalar_def)

text \<open>
  On finite values the arithmetic on \<open>jsnum\<close> is the arithmetic on the reals: the guard
  keeps the divisor of \<open>normalize\<close> away from 0.
\<close>

lemma length_js_of: "length_js (js_of v) = Fin (length_V3 v)"
  by (simp add: length_js_def js_of_def length_V3_def not_less)

lemma lengthSq_js_of: "lengthSq_js (js_of v) = Fin (lengthSq v)"
  by (simp add: lengthSq_js_def js_of_def lengthSq_def)

lemma normalize_divisor_js_of: "normalize_divisor_js (js_of v) = Fin (normalize_divisor v)"
  by (simp add: normalize_divisor_js_def normalize_divisor_def jor_def length_js_of)

lemma multiplyScalar_js_of: "multiplyScalar_js (js_of v) (Fin a) = js_of (multiplyScalar v a)"
  by (simp add: multiplyScalar_js_def multiplyScalar_def js_of_def)

lemma normalize_js_of: "normalize_js (js_of v) = js_of (normalize_V3 v)"
  using normalize_divisor_nonzero [of v]
  by (simp add: normalize_js_def normalize_V3_def divideScalar_js_def divideScalar_def
      normalize_divisor_js_of multiplyScalar_js_of)

lemma negate_js_of: "negate_js (js_of v) = js_of (negate v)"
  by (simp add: negate_js_def negate_def js_of_def)

lemma addScaledVector_js_of:
  "addScaledVector_js (js_of a) (js_of v) (Fin b) = js_of (addScaledVector a v b)"
  by (simp add: addScaledVector_js_def addScaledVector_def js_of_def)

lemma a_drag_js_of: "a_drag_js (js_of_options opts) (js_of v) = js_of (a_drag opts v)"
  by (simp add: a_drag_js_def a_drag_def Let_def js_of_options_def normalize_js_of negate_js_of
      lengthSq_js_of multiplyScalar_js_of)

lemma dts_js_eq: "dts_js = Fin dts"
  by (simp add: dts_js_def dts_def)

lemma a_grav_js_eq: "a_grav_js = js_of a_grav"
  by (simp add: a_grav_js_def a_grav_def js_of_def)

lemma step_js_of:
  "step_js (js_of_options opts) (js_of p, js_of v) =
     (js_of (addScaledVector p
        (addScaledVector (addScaledVector v a_grav dts) (a_drag opts v) dts) dts),
      js_of (addScaledVector (addScaledVector v a_grav dts) (a_drag opts v) dts))"
  by (simp add: step_js_def Let_def dts_js_eq a_grav_js_eq a_drag_js_of addScaledVector_js_of)

lemma step_js_tick:
  assumes "is_tick s (Fire i)"
  shows "step_js (js_of_options (options s)) (js_of (baseball_position s), js_of (velocity s)) =
     (js_of (baseball_position (exec upd s (Fire i))), js_of (velocity (exec upd s (Fire i))))"
  using assms by (simp add: step_js_of exec_tick step_fields)

lemma finite_jsE: "finite_js a \<Longrightarrow> \<exists>r. a = Fin r"
  by (cases a) (simp_all add: finite_js_def)

lemma normalize_divisor_js_guard:
  "normalize_divisor_js v \<noteq> Fin 0 \<and> normalize_divisor_js v \<noteq> NaN"
  by (simp add: normalize_divisor_js_def jor_def)

lemma length_js_zero: "length_js (Vector3_js (Fin 0) (Fin 0) (Fin 0)) = Fin 0"
  by (simp add: length_js_def)

lemma normalize_divisor_js_zero: "normalize_divisor_js (Vector3_js (Fin 0) (Fin 0) (Fin 0)) = Fin 1"
  by (simp add: normalize_divisor_js_def jor_def length_js_zero)

lemma unguarded_zero:
  "divideScalar_js (Vector3_js (Fin 0) (Fin 0) (Fin 0))
     (length_js (Vector3_js (Fin 0) (Fin 0) (Fin 0))) = Vector3_js NaN NaN NaN"
  by (simp add: divideScalar_js_def multiplyScalar_js_def length_js_zero)

lemma normalize_js_zero:
  "normalize_js (Vector3_js (Fin 0) (Fin 0) (Fin 0)) = Vector3_js (Fin 0) (Fin 0) (Fin 0)"
  by (simp add: normalize_js_def normalize_divisor_js_zero divideScalar_js_def
      multiplyScalar_js_def)

lemma lengthSq_js_zero: "lengthSq_js (Vector3_js (Fin 0) (Fin 0) (Fin 0)) = Fin 0"
  by (simp add: lengthSq_js_def)

lemma a_drag_js_zero:
  assumes "finite_options opts"
  shows "a_drag_js opts (Vector3_js (Fin 0) (Fin 0) (Fin 0)) = Vector3_js (Fin 0) (Fin 0) (Fin 0)"
proof -
  from assms obtain r c m a where
    "rho_js opts = Fin r" "C_d_js opts = Fin c" "mass_js opts = Fin m" "area_js opts = Fin a"
    unfolding finite_options_def by (metis finite_jsE)
  then show ?thesis
    by (simp add: a_drag_js_def Let_def normalize_js_zero lengthSq_js_zero negate_js_def
        multiplyScalar_js_def)
qed

lemma step_js_rest:
  assumes "finite_options opts"
  shows "step_js opts (p, Vector3_js (Fin 0) (Fin 0) (Fin 0)) =
     (addScaledVector_js p (Vector3_js (Fin 0) (Fin (- 0.1568)) (Fin 0)) dts_js,
      Vector3_js (Fin 0) (Fin (- 0.1568)) (Fin 0))"
  by (simp add: step_js_def Let_def a_drag_js_zero [OF assms])
     (simp add: addScaledVector_js_def a_grav_js_def dts_js_def dt_def)

lemma finite_addScaledVector_js:
  "finite_Vector3 a \<Longrightarrow> finite_Vector3 v \<Longrightarrow> finite_js s \<Longrightarrow>
   finite_Vector3 (addScaledVector_js a v s)"
  by (auto simp add: finite_Vector3_def addScaledVector_js_def dest!: finite_jsE)
     (simp_all add: finite_js_def)

lemma finite_no_NaN: "finite_Vector3 v \<Longrightarrow> \<not> has_NaN v"
  by (auto simp add: finite_Vector3_def has_NaN_def finite_js_def)

text \<open>
  Claim C9 as stated, at air density \<open>Infinity\<close> and the other options as loaded: the
  velocity is the zero vector and normalizes to the zero vector, but the scalar of the
  drag term is \<open>Infinity * 0 = NaN\<close>, and the tick leaves every component of velocity
  and position \<open>NaN\<close>.
\<close>

theorem tick_at_rest_infinite_rho:
  "normalize_js (Vector3_js (Fin 0) (Fin 0) (Fin 0)) = Vector3_js (Fin 0) (Fin 0) (Fin 0)
   \<and> a_drag_js
        \<lparr>speed_js = Fin 10, rho_js = PInf, C_d_js = Fin 0.33, mass_js = Fin (1.45 / 1000),
         area_js = Fin (pi * (73 / 1000 / 2) ^ 2)\<rparr>
        (Vector3_js (Fin 0) (Fin 0) (Fin 0)) = Vector3_js NaN NaN NaN
   \<and> step_js
        \<lparr>speed_js = Fin 10, rho_js = PInf, C_d_js = Fin 0.33, mass_js = Fin (1.45 / 1000),
         area_js = Fin (pi * (73 / 1000 / 2) ^ 2)\<rparr>
        (Vector3_js (Fin 0) (Fin 0) (Fin 0), Vector3_js (Fin 0) (Fin 0) (Fin 0))
       = (Vector3_js NaN NaN NaN, Vector3_js NaN NaN NaN)
   \<and> has_NaN (snd (step_js
        \<lparr>speed_js = Fin 10, rho_js = PInf, C_d_js = Fin 0.33, mass_js = Fin (1.45 / 1000),
         area_js = Fin (pi * (73 / 1000 / 2) ^ 2)\<rparr>
        (Vector3_js (Fin 0) (Fin 0) (Fin 0), Vector3_js (Fin 0) (Fin 0) (Fin 0))))"
proof -
  have d: "a_drag_js
        \<lparr>speed_js = Fin 10, rho_js = PInf, C_d_js = Fin 0.33, mass_js = Fin (1.45 / 1000),
         area_js = Fin (pi * (73 / 1000 / 2) ^ 2)\<rparr>
        (Vector3_js (Fin 0) (Fin 0) (Fin 0)) = Vector3_js NaN NaN NaN"
    by (simp add: a_drag_js_def Let_def normalize_js_zero lengthSq_js_zero negate_js_def
        multiplyScalar_js_def)
  have s: "step_js
        \<lparr>speed_js = Fin 10, rho_js = PInf, C_d_js = Fin 0.33, mass_js = Fin (1.45 / 1000),
         area_js = Fin (pi * (73 / 1000 / 2) ^ 2)\<rparr>
        (Vector3_js (Fin 0) (Fin 0) (Fin 0), Vector3_js (Fin 0) (Fin 0) (Fin 0))
       = (Vector3_js NaN NaN NaN, Vector3_js NaN NaN NaN)"
    unfolding step_js_def Let_def fst_conv snd_conv d
    by (simp add: addScaledVector_js_def a_grav_js_def dts_js_def dt_def)
  from normalize_js_zero d s show ?thesis by (simp add: has_NaN_def)
qed

text \<open>
  Claim C9, amended. The divisor of \<open>normalize\<close>, \<open>length() || 1\<close>, is never 0 and never
  \<open>NaN\<close>, whatever the vector; at the zero vector it is 1, where the bare length would
  give \<open>0 * (1 / 0) = NaN\<close> in every component, and the zero vector normalizes to itself.
  When the air density, the drag coefficient, the mass and the area are finite and the
  ball's position is finite, the drag term of a zero velocity is the zero vector, the tick
  leaves the velocity \<open>(0, -0.1568, 0)\<close> and moves the ball by \<open>dts\<close> times that, and no
  component of either is \<open>NaN\<close> or infinite. On a tick of the page at velocity zero this
  is the velocity and the position of the real-number reading.
\<close>

theorem tick_at_rest_finite:
  assumes "finite_options opts" and "finite_Vector3 p"
  shows "normalize_divisor_js v \<noteq> Fin 0 \<and> normalize_divisor_js v \<noteq> NaN
       \<and> normalize_divisor_js (Vector3_js (Fin 0) (Fin 0) (Fin 0)) = Fin 1
       \<and> divideScalar_js (Vector3_js (Fin 0) (Fin 0) (Fin 0))
           (length_js (Vector3_js (Fin 0) (Fin 0) (Fin 0))) = Vector3_js NaN NaN NaN
       \<and> normalize_js (Vector3_js (Fin 0) (Fin 0) (Fin 0)) = Vector3_js (Fin 0) (Fin 0) (Fin 0)
       \<and> a_drag_js opts (Vector3_js (Fin 0) (Fin 0) (Fin 0)) = Vector3_js (Fin 0) (Fin 0) (Fin 0)
       \<and> snd (step_js opts (p, Vector3_js (Fin 0) (Fin 0) (Fin 0))) =
           Vector3_js (Fin 0) (Fin (- 0.1568)) (Fin 0)
       \<and> fst (step_js opts (p, Vector3_js (Fin 0) (Fin 0) (Fin 0))) =
           addScaledVector_js p (Vector3_js (Fin 0) (Fin (- 0.1568)) (Fin 0)) dts_js
       \<and> finite_Vector3 (fst (step_js opts (p, Vector3_js (Fin 0) (Fin 0) (Fin 0))))
       \<and> finite_Vector3 (snd (step_js opts (p, Vector3_js (Fin 0) (Fin 0) (Fin 0))))
       \<and> \<not> has_NaN (fst (step_js opts (p, Vector3_js (Fin 0) (Fin 0) (Fin 0))))
       \<and> \<not> has_NaN (snd (step_js opts (p, Vector3_js (Fin 0) (Fin 0) (Fin 0))))
       \<and> (is_tick s (Fire i) \<and> velocity s = Vector3 0 0 0 \<longrightarrow>
            step_js (js_of_options (options s))
              (js_of (baseball_position s), Vector3_js (Fin 0) (Fin 0) (Fin 0)) =
            (js_of (baseball_position (exec upd s (Fire i))),
             js_of (velocity (exec upd s (Fire i)))))"
proof -
  note st = step_js_rest [OF assms(1), of p]
  have fv: "finite_Vector3 (Vector3_js (Fin 0) (Fin (- 0.1568)) (Fin 0))"
    by (simp add: finite_Vector3_def finite_js_def)
  have fd: "finite_js dts_js"
    by (simp add: dts_js_eq finite_js_def)
  have fp: "finite_Vector3 (fst (step_js opts (p, Vector3_js (Fin 0) (Fin 0) (Fin 0))))"
    unfolding st fst_conv using assms(2) fv fd by (rule finite_addScaledVector_js)
  have fs: "finite_Vector3 (snd (step_js opts (p, Vector3_js (Fin 0) (Fin 0) (Fin 0))))"
    unfolding st snd_conv by (rule fv)
  have t: "step_js (js_of_options (options s))
              (js_of (baseball_position s), Vector3_js (Fin 0) (Fin 0) (Fin 0)) =
            (js_of (baseball_position (exec upd s (Fire i))),
             js_of (velocity (exec upd s (Fire i))))"
    if "is_tick s (Fire i)" and "velocity s = Vector3 0 0 0"
    using step_js_tick [OF that(1), of upd] that(2) by (simp add: js_of_def)
  from normalize_divisor_js_guard [of v] normalize_divisor_js_zero unguarded_zero
    normalize_js_zero a_drag_js_zero [OF assms(1)] st fp fs
    finite_no_NaN [OF fp] finite_no_NaN [OF fs] t
  show ?thesis by simp
qed

text \<open>
  The options as loaded and the ball at the origin: the tick leaves the velocity
  \<open>(0, -0.1568, 0)\<close> and the position \<open>(0, -0.0025088, 0)\<close>, which is what the first tick
  of the page as loaded and started computes.
\<close>

theorem tick_at_rest_finite_witness:
  "finite_options (js_of_options (options (loaded (\<lambda>v. v))))
   \<and> finite_Vector3 (Vector3_js (Fin 0) (Fin 0) (Fin 0))
   \<and> step_js (js_of_options (options (loaded (\<lambda>v. v))))
        (Vector3_js (Fin 0) (Fin 0) (Fin 0), Vector3_js (Fin 0) (Fin 0) (Fin 0)) =
       (Vector3_js (Fin 0) (Fin (- 0.0025088)) (Fin 0), Vector3_js (Fin 0) (Fin (- 0.1568)) (Fin 0))
   \<and> is_tick (exec (\<lambda>v. v) (loaded (\<lambda>v. v)) Start) (Fire 1)
   \<and> velocity (exec (\<lambda>v. v) (loaded (\<lambda>v. v)) Start) = Vector3 0 0 0
   \<and> js_of (velocity (run (\<lambda>v. v) (loaded (\<lambda>v. v)) [Start, Fire 1])) =
       Vector3_js (Fin 0) (Fin (- 0.1568)) (Fin 0)
   \<and> js_of (baseball_position (run (\<lambda>v. v) (loaded (\<lambda>v. v)) [Start, Fire 1])) =
       Vector3_js (Fin 0) (Fin (- 0.0025088)) (Fin 0)"
proof -
  define s where "s = exec (\<lambda>v. v) (loaded (\<lambda>v. v)) Start"
  define Z where "Z = Vector3_js (Fin 0) (Fin 0) (Fin 0)"
  have fo: "finite_options (js_of_options (options (loaded (\<lambda>v. v))))"
    by (simp add: finite_options_def js_of_options_def finite_js_def)
  have fz: "finite_Vector3 Z"
    by (simp add: Z_def finite_Vector3_def finite_js_def)
  have t: "timers s 1 = Some (Step, 16)"
    by (simp add: s_def exec_def start_fields render_def loaded_def initial_def dt_def)
  then have tick: "is_tick s (Fire 1)" by (simp add: is_tick_def)
  have vel: "velocity s = Vector3 0 0 0"
    by (simp add: s_def exec_def start_fields render_def loaded_def initial_def
        normalize_V3_zero multiplyScalar_def)
  have pos: "js_of (baseball_position s) = Z"
    by (simp add: s_def exec_def start_fields js_of_def Z_def)
  have opts: "options s = options (loaded (\<lambda>v. v))"
    by (simp add: s_def exec_def start_fields)
  have r: "run (\<lambda>v. v) (loaded (\<lambda>v. v)) [Start, Fire 1] = exec (\<lambda>v. v) s (Fire 1)"
    by (simp add: s_def run_def)
  note T = tick_at_rest_finite [OF fo fz [unfolded Z_def], of Z s 1 "\<lambda>v. v", folded Z_def]
  from T have 1: "snd (step_js (js_of_options (options (loaded (\<lambda>v. v)))) (Z, Z)) =
      Vector3_js (Fin 0) (Fin (- 0.1568)) (Fin 0)"
    and 2: "fst (step_js (js_of_options (options (loaded (\<lambda>v. v)))) (Z, Z)) =
      addScaledVector_js Z (Vector3_js (Fin 0) (Fin (- 0.1568)) (Fin 0)) dts_js"
    by blast+
  have 3: "addScaledVector_js Z (Vector3_js (Fin 0) (Fin (- 0.1568)) (Fin 0)) dts_js =
      Vector3_js (Fin 0) (Fin (- 0.0025088)) (Fin 0)"
    by (simp add: Z_def addScaledVector_js_def dts_js_def dt_def)
  from 1 2 3 have st: "step_js (js_of_options (options (loaded (\<lambda>v. v)))) (Z, Z) =
      (Vector3_js (Fin 0) (Fin (- 0.0025088)) (Fin 0), Vector3_js (Fin 0) (Fin (- 0.1568)) (Fin 0))"
    by (simp add: prod_eq_iff)
  from T tick vel
  have "step_js (js_of_options (options s)) (js_of (baseball_position s), Z) =
      (js_of (baseball_position (exec (\<lambda>v. v) s (Fire 1))),
       js_of (velocity (exec (\<lambda>v. v) s (Fire 1))))"
    by blast
  with st have 4: "js_of (velocity (exec (\<lambda>v. v) s (Fire 1))) =
        Vector3_js (Fin 0) (Fin (- 0.1568)) (Fin 0)"
    and 5: "js_of (baseball_position (exec (\<lambda>v. v) s (Fire 1))) =
        Vector3_js (Fin 0) (Fin (- 0.0025088)) (Fin 0)"
    by (simp_all add: opts pos)
  from fo fz st tick vel 4 5 show ?thesis
    unfolding r s_def [symmetric] Z_def [symmetric] by simp
qed

section \<open>C3: the velocity Start sets\<close>

lemma render_direction_length:
  "length_V3 (direction (render s)) =
     (if directionController_position s = Vector3 0 0 0 then 0 else 1)"
  by (simp add: render_def length_V3_normalize)

text \<open>
  Once a frame has been rendered with the handle away from the origin, the direction is a
  unit vector and Start gives the ball a velocity of length \<open>|speed|\<close>.
\<close>

lemma start_speed:
  assumes "directionController_position s \<noteq> Vector3 0 0 0"
  shows "length_V3 (velocity (start (render s))) = \<bar>speed (options s)\<bar>"
  using assms
  by (simp add: start_fields length_V3_multiplyScalar render_direction_length) (simp add: render_def)

text \<open>
  Claim C3 on the page as loaded. The handle is created at the origin and the first
  \<open>render\<close> replaces the declared direction \<open>(0, 1, 0)\<close> by the normalized handle
  position, the zero vector. Start then sets the velocity to the zero vector although the
  speed is 10. Start does reset the position to the origin and clear the recorded path.
\<close>

theorem start_at_load:
  "direction (initial upd) = Vector3 0 1 0
   \<and> direction (loaded upd) = Vector3 0 0 0
   \<and> speed (options (loaded upd)) = 10
   \<and> velocity (exec upd (loaded upd) Start) = Vector3 0 0 0
   \<and> length_V3 (velocity (exec upd (loaded upd) Start)) = 0
   \<and> baseball_position (exec upd (loaded upd) Start) = Vector3 0 0 0
   \<and> pathPoints (exec upd (loaded upd) Start) = []
   \<and> pathGeometry (exec upd (loaded upd) Start) = []"
  by (simp add: exec_def start_fields loaded_def render_def initial_def normalize_V3_zero
      multiplyScalar_def length_V3_def)

section \<open>The sample throw, event by event\<close>

lemma render_fixed: "direction s = normalize_V3 (directionController_position s) \<Longrightarrow> render s = s"
  by (simp add: render_def)

lemma normalize_V3_handle: "normalize_V3 (Vector3 0 2 0) = Vector3 0 1 0"
  by (simp add: normalize_V3_def normalize_divisor_def divideScalar_def multiplyScalar_def
      length_V3_def)

lemma lob_ready_fields:
  "direction lob_ready = Vector3 0 1 0"
  "directionController_position lob_ready = Vector3 0 2 0"
  "options lob_ready = lob_options"
  "timers lob_ready = (\<lambda>i. None)"
  "simulationInterval lob_ready = None"
  "next_timer lob_ready = 1"
  "pathPoints lob_ready = []"
  "orbitControls_enabled lob_ready = True"
  by (simp_all add: lob_ready_def run_def exec_def render_def loaded_def initial_def
      normalize_V3_def normalize_divisor_def divideScalar_def multiplyScalar_def length_V3_def)

lemma lob_started_fields:
  "direction lob_started = Vector3 0 1 0"
  "directionController_position lob_started = Vector3 0 2 0"
  "velocity lob_started = Vector3 0 (1 / 5) 0"
  "baseball_position lob_started = Vector3 0 0 0"
  "options lob_started = lob_options"
  "timers lob_started = (\<lambda>i. None)(1 \<mapsto> (Step, 16))"
  "simulationInterval lob_started = Some 1"
  "next_timer lob_started = 2"
  "pathPoints lob_started = []"
  "pathGeometry lob_started = []"
  "orbitControls_enabled lob_started = True"
  by (simp_all add: lob_started_def exec_def start_fields lob_ready_fields lob_options_def
      multiplyScalar_def dt_def)

lemma a_drag_lob: "a_drag lob_options v = Vector3 0 0 0"
  by (simp add: a_drag_eq lob_options_def multiplyScalar_def)

lemma lob_started_tick: "is_tick lob_started (Fire 1)"
  by (simp add: is_tick_def lob_started_fields)

lemma lob_flying_step: "lob_flying = step (\<lambda>v. v) lob_started"
  unfolding lob_flying_def by (rule exec_tick [OF lob_started_tick])

lemma lob_flying_position:
  "velocity lob_flying = Vector3 0 (27 / 625) 0"
  "baseball_position lob_flying = Vector3 0 (54 / 78125) 0"
  by (simp_all add: lob_flying_step step_fields lob_started_fields a_drag_lob
      addScaledVector_def a_grav_def dts_def dt_def)

lemma lob_flying_fields:
  "direction lob_flying = Vector3 0 1 0"
  "directionController_position lob_flying = Vector3 0 2 0"
  "options lob_flying = lob_options"
  "timers lob_flying = (\<lambda>i. None)(1 \<mapsto> (Step, 16))"
  "simulationInterval lob_flying = Some 1"
  "next_timer lob_flying = 2"
  "pathPoints lob_flying = [Vector3 0 0 0]"
  "pathGeometry lob_flying = []"
  "orbitControls_enabled lob_flying = True"
  using lob_flying_position
  by (simp_all add: lob_flying_step step_fields step_timers lob_started_fields)

lemma lob_flying_tick: "is_tick lob_flying (Fire 1)"
  by (simp add: is_tick_def lob_flying_fields)

lemma lob_landed_step: "lob_landed = step (\<lambda>v. v) lob_flying"
  unfolding lob_landed_def by (rule exec_tick [OF lob_flying_tick])

lemma lob_landed_position:
  "velocity lob_landed = Vector3 0 (- (71 / 625)) 0"
  "baseball_position lob_landed = Vector3 0 (- (88 / 78125)) 0"
  by (simp_all add: lob_landed_step step_fields lob_flying_fields lob_flying_position a_drag_lob
      addScaledVector_def a_grav_def dts_def dt_def)

lemma length_V3_vertical: "length_V3 (Vector3 0 b 0) = \<bar>b\<bar>"
  by (simp add: length_V3_def)

lemma lob_landed_fields:
  "direction lob_landed = Vector3 0 1 0"
  "directionController_position lob_landed = Vector3 0 2 0"
  "timers lob_landed =
     (\<lambda>i. None)(2 \<mapsto> (Transition \<lparr>frames = 0, dist_anim = 88 / 78125,
                                     center = Vector3 0 (- (44 / 78125)) 0\<rparr>, 16))"
  "simulationInterval lob_landed = Some 1"
  "next_timer lob_landed = 3"
  "pathPoints lob_landed = [Vector3 0 0 0, Vector3 0 (54 / 78125) 0]"
  "pathGeometry lob_landed = [Vector3 0 0 0, Vector3 0 (54 / 78125) 0]"
  "orbitControls_enabled lob_landed = False"
  "target (orbit lob_landed) = Vector3 0 (- (88 / 78125)) 0"
  using lob_landed_position
  by (simp_all add: lob_landed_step step_fields step_timers lob_flying_fields lob_flying_position
      multiplyScalar_def length_V3_vertical)

lemma lob_render:
  "exec upd lob_started Render = lob_started"
  "exec upd lob_flying Render = lob_flying"
  "exec upd lob_landed Render = lob_landed"
  by (simp_all add: exec_def render_fixed normalize_V3_handle lob_started_fields lob_flying_fields
      lob_landed_fields)

lemma reachable_lob:
  "reachable (\<lambda>v. v) lob_ready" "reachable (\<lambda>v. v) lob_started"
  "reachable (\<lambda>v. v) lob_flying" "reachable (\<lambda>v. v) lob_landed"
  unfolding lob_ready_def lob_started_def lob_flying_def lob_landed_def
  by (intro reachable_exec reachable_run reachable_loaded)+

section \<open>C2: when the stepper lands\<close>

lemma phase_RUNNING_iff:
  "phase_of s = RUNNING \<longleftrightarrow> (\<exists>i d. simulationInterval s = Some i \<and> timers s i = Some (Step, d))"
  by (auto simp add: phase_of_def split: option.splits callback.splits)

lemma phase_IDLE_iff: "phase_of s = IDLE \<longleftrightarrow> simulationInterval s = None"
  by (auto simp add: phase_of_def split: option.splits callback.splits)

lemma phase_start: "phase_of (start s) = RUNNING"
  by (simp add: phase_RUNNING_iff start_fields split: option.splits)

lemma phase_tick:
  assumes ok: "timers_ok s" and tick: "is_tick s (Fire i)"
  shows "phase_of (exec upd s (Fire i)) =
           (if y (baseball_position (exec upd s (Fire i))) \<le> 0 then LANDED else RUNNING)"
proof -
  from tick obtain d where d: "timers s i = Some (Step, d)" by (auto simp add: is_tick_iff)
  with ok have sim: "simulationInterval s = Some i" and lt: "i < next_timer s"
    by (auto simp add: timers_ok_def)
  show ?thesis
    using d sim lt
    by (simp add: exec_tick [OF tick] phase_of_def step_fields step_timers)
qed

lemma phase_other:
  assumes "e \<noteq> Start" and "\<not> is_tick s e"
  shows "phase_of (exec upd s e) = phase_of s"
proof (cases "simulationInterval s")
  case None
  with assms show ?thesis by (simp add: phase_of_def exec_other)
next
  case (Some j)
  have "(\<exists>d. timers (exec upd s e) j = Some (Step, d)) \<longleftrightarrow> (\<exists>d. timers s j = Some (Step, d))"
    using assms by (simp add: exec_other_Step)
  moreover have "simulationInterval (exec upd s e) = Some j"
    using assms Some by (simp add: exec_other)
  ultimately show ?thesis
    using Some
    by (auto simp add: phase_of_def split: option.splits callback.splits)
qed

lemma phase_exec_running:
  assumes ok: "timers_ok s" and run: "phase_of s = RUNNING"
  shows "phase_of (exec upd s e) =
           (if is_tick s e \<and> y (baseball_position (exec upd s e)) \<le> 0 then LANDED else RUNNING)"
proof (cases "is_tick s e")
  case True
  then obtain i where "e = Fire i" using is_tick_cases by blast
  with True ok show ?thesis by (simp add: phase_tick)
next
  case False
  show ?thesis
  proof (cases "e = Start")
    case True
    with False show ?thesis by (simp add: exec_Start phase_start)
  next
    case ns: False
    with False run show ?thesis by (simp add: phase_other)
  qed
qed

lemma running_until_tick:
  "timers_ok s \<Longrightarrow> phase_of s = RUNNING \<Longrightarrow> ticks_executed upd s es = 0 \<Longrightarrow>
   phase_of (run upd s es) = RUNNING"
proof (induction es arbitrary: s)
  case Nil
  then show ?case by (simp add: run_Nil)
next
  case (Cons e es)
  from Cons.prems have nt: "\<not> is_tick s e" and rest: "ticks_executed upd (exec upd s e) es = 0"
    by (auto split: if_splits)
  from Cons.prems nt have "phase_of (exec upd s e) = RUNNING"
    by (simp add: phase_exec_running)
  with Cons.IH [of "exec upd s e"] Cons.prems rest show ?case
    by (simp add: run_Cons timers_ok_exec)
qed

text \<open>
  Claim C2. From a reachable state in phase RUNNING, an event leads to LANDED exactly when
  it is a tick whose position update leaves the ball's \<open>y\<close> at or below 0; every other
  event leaves the phase RUNNING. From IDLE no event leads to LANDED. Start leads to
  RUNNING from any state, and as long as no tick has been executed after it the phase is
  still RUNNING.
\<close>

theorem landing_iff:
  assumes "reachable upd s"
  shows "(phase_of s = RUNNING \<longrightarrow>
            (phase_of (exec upd s e) = LANDED \<longleftrightarrow>
               is_tick s e \<and> y (baseball_position (exec upd s e)) \<le> 0)
            \<and> (phase_of (exec upd s e) \<noteq> LANDED \<longrightarrow> phase_of (exec upd s e) = RUNNING))
       \<and> (phase_of s = IDLE \<longrightarrow> phase_of (exec upd s e) \<noteq> LANDED)
       \<and> phase_of (exec upd s Start) = RUNNING
       \<and> (ticks_executed upd (exec upd s Start) es = 0 \<longrightarrow>
            phase_of (run upd (exec upd s Start) es) = RUNNING)"
proof -
  from assms have ok: "timers_ok s" by (rule reachable_timers_ok)
  have a: "phase_of (exec upd s e) =
      (if is_tick s e \<and> y (baseball_position (exec upd s e)) \<le> 0 then LANDED else RUNNING)"
    if "phase_of s = RUNNING"
    using ok that by (rule phase_exec_running)
  have b: "phase_of (exec upd s e) \<noteq> LANDED" if idle: "phase_of s = IDLE"
  proof (cases "e = Start")
    case True
    then show ?thesis by (simp add: exec_Start phase_start)
  next
    case False
    from idle have none: "simulationInterval s = None" by (simp add: phase_IDLE_iff)
    with ok have "\<not> is_tick s e" by (auto simp add: is_tick_iff timers_ok_def)
    with False idle show ?thesis by (simp add: phase_other)
  qed
  have c: "phase_of (exec upd s Start) = RUNNING"
    by (simp add: exec_Start phase_start)
  have d: "phase_of (run upd (exec upd s Start) es) = RUNNING"
    if "ticks_executed upd (exec upd s Start) es = 0"
    using timers_ok_exec [OF ok] c that by (rule running_until_tick)
  from a b c d show ?thesis by simp
qed

text \<open>
  The sample throw: RUNNING once started and still RUNNING after a frame and a move of
  the handle; the first tick leaves the ball above the floor and the phase RUNNING, the
  second one lands.
\<close>

theorem landing_iff_witness:
  "reachable (\<lambda>v. v) lob_ready \<and> reachable (\<lambda>v. v) lob_flying
   \<and> phase_of lob_ready = IDLE
   \<and> phase_of (run (\<lambda>v. v) (exec (\<lambda>v. v) lob_ready Start) [Render, Drag (Vector3 1 0 0)]) = RUNNING
   \<and> phase_of lob_flying = RUNNING
   \<and> is_tick lob_flying (Fire 1)
   \<and> y (baseball_position (exec (\<lambda>v. v) lob_flying (Fire 1))) \<le> 0
   \<and> phase_of (exec (\<lambda>v. v) lob_flying (Fire 1)) = LANDED
   \<and> phase_of (exec (\<lambda>v. v) lob_flying Render) = RUNNING"
proof -
  have idle: "phase_of lob_ready = IDLE"
    by (simp add: phase_of_def lob_ready_fields)
  have nt: "ticks_executed (\<lambda>v. v) (exec (\<lambda>v. v) lob_ready Start) [Render, Drag (Vector3 1 0 0)] = 0"
    by (simp add: is_tick_def)
  have fly: "phase_of lob_flying = RUNNING"
    by (simp add: phase_of_def lob_flying_fields)
  have low: "y (baseball_position (exec (\<lambda>v. v) lob_flying (Fire 1))) \<le> 0"
    using lob_landed_position by (simp add: lob_landed_def)
  have nr: "\<not> is_tick lob_flying Render"
    by (simp add: is_tick_def)
  from landing_iff [OF reachable_lob(1), of Render "[Render, Drag (Vector3 1 0 0)]"] nt
  have 1: "phase_of (run (\<lambda>v. v) (exec (\<lambda>v. v) lob_ready Start) [Render, Drag (Vector3 1 0 0)])
             = RUNNING"
    by blast
  from landing_iff [OF reachable_lob(3), of "Fire 1" "[]"] fly lob_flying_tick low
  have 2: "phase_of (exec (\<lambda>v. v) lob_flying (Fire 1)) = LANDED"
    by blast
  from landing_iff [OF reachable_lob(3), of Render "[]"] fly nr
  have 3: "phase_of (exec (\<lambda>v. v) lob_flying Render) = RUNNING"
    by blast
  from reachable_lob idle 1 fly lob_flying_tick low 2 3 show ?thesis by blast
qed

section \<open>C4: the length of the recorded path\<close>

text \<open>
  Claim C4. A throw is a Start, events other than Start up to a tick that lands, and
  events other than Start after it. The finalized path then has as many points as ticks
  were executed before the landing tick, plus one; no tick is executed after the landing
  tick; and every executed tick appends the position it starts from.
\<close>

theorem path_length:
  assumes "reachable upd s"
    and "Start \<notin> set es1" and "Start \<notin> set es2"
    and "s1 = run upd (exec upd s Start) es1"
    and "is_tick s1 (Fire i)"
    and "y (baseball_position (exec upd s1 (Fire i))) \<le> 0"
    and "s2 = run upd (exec upd s1 (Fire i)) es2"
  shows "length (pathGeometry s2) = ticks_executed upd (exec upd s Start) es1 + 1
       \<and> ticks_executed upd (exec upd s1 (Fire i)) es2 = 0
       \<and> (\<forall>s' e. is_tick s' e \<longrightarrow>
            pathPoints (exec upd s' e) = pathPoints s' @ [baseball_position s'])"
proof -
  from assms(1) have ok: "timers_ok s" by (rule reachable_timers_ok)
  note fin = finalized_path [OF ok assms(2-7)]
  have "length (pathGeometry s2) = ticks_executed upd (exec upd s Start) (es1 @ [Fire i])"
    by (simp only: fin(1) length_recorded)
  also have "\<dots> = ticks_executed upd (exec upd s Start) es1 + 1"
    using assms(4,5) by (simp add: ticks_executed_append)
  finally have a: "length (pathGeometry s2) = ticks_executed upd (exec upd s Start) es1 + 1" .
  have b: "pathPoints (exec upd s' e) = pathPoints s' @ [baseball_position s']"
    if "is_tick s' e" for s' e
  proof -
    from that obtain j where "e = Fire j" using is_tick_cases by blast
    with that show ?thesis by (simp add: exec_tick step_fields)
  qed
  from a fin(2) b show ?thesis by blast
qed

text \<open>
  The sample throw, with a frame between its two ticks and a camera step after the
  landing: one tick before the landing tick, two points in the finalized path.
\<close>

theorem path_length_witness:
  "reachable (\<lambda>v. v) lob_ready
   \<and> is_tick (run (\<lambda>v. v) (exec (\<lambda>v. v) lob_ready Start) [Fire 1, Render]) (Fire 1)
   \<and> ticks_executed (\<lambda>v. v) (exec (\<lambda>v. v) lob_ready Start) [Fire 1, Render] = 1
   \<and> length (pathGeometry (run (\<lambda>v. v) lob_ready [Start, Fire 1, Render, Fire 1, Fire 2])) = 2"
proof -
  have s1: "run (\<lambda>v. v) (exec (\<lambda>v. v) lob_ready Start) [Fire 1, Render] = lob_flying"
    by (simp only: run_def foldl_Cons foldl_Nil lob_started_def [symmetric]
        lob_flying_def [symmetric] lob_render)
  have low: "y (baseball_position (exec (\<lambda>v. v) lob_flying (Fire 1))) \<le> 0"
    using lob_landed_position by (simp add: lob_landed_def)
  have n: "ticks_executed (\<lambda>v. v) (exec (\<lambda>v. v) lob_ready Start) [Fire 1, Render] = 1"
    using lob_started_tick by (simp add: lob_started_def [symmetric] is_tick_def)
  have r: "run (\<lambda>v. v) lob_ready [Start, Fire 1, Render, Fire 1, Fire 2] =
      run (\<lambda>v. v) (exec (\<lambda>v. v) lob_flying (Fire 1)) [Fire 2]"
    using s1 by (simp only: run_def foldl_Cons foldl_Nil)
  from path_length [OF reachable_lob(1) _ _ s1 [symmetric] lob_flying_tick low r] n
  have "length (pathGeometry (run (\<lambda>v. v) lob_ready [Start, Fire 1, Render, Fire 1, Fire 2])) = 2"
    by simp
  with reachable_lob(1) lob_flying_tick n s1 show ?thesis by simp
qed

section \<open>C7: the path after a second Start\<close>

text \<open>
  Claim C7. Whatever has run before, a Start empties both the recorded points and the
  rendered path. After a first Start and any events, a second Start, events other than
  Start up to a landing tick and events other than Start after it, the rendered path is
  the list of the positions from which the ticks executed after the second Start set
  out, and nothing else.
\<close>

theorem second_start_path:
  assumes "reachable upd s0"
    and "sA = run upd (exec upd s0 Start) es0"
    and "Start \<notin> set es1" and "Start \<notin> set es2"
    and "s1 = run upd (exec upd sA Start) es1"
    and "is_tick s1 (Fire i)"
    and "y (baseball_position (exec upd s1 (Fire i))) \<le> 0"
    and "s2 = run upd (exec upd s1 (Fire i)) es2"
  shows "pathPoints (exec upd sA Start) = [] \<and> pathGeometry (exec upd sA Start) = []
       \<and> pathGeometry s2 = recorded upd (exec upd sA Start) (es1 @ [Fire i])"
proof -
  from assms(1) have "timers_ok s0" by (rule reachable_timers_ok)
  then have ok: "timers_ok sA" unfolding assms(2) by (intro timers_ok_run timers_ok_exec)
  from finalized_path(1) [OF ok assms(3-8)]
  show ?thesis by (simp add: exec_Start start_fields)
qed

text \<open>
  The sample throw runs to its landing and leaves a path of two points; the handle is
  then put back on the origin, a frame is rendered and Start is pressed again. The second
  throw lands at its first tick, and the rendered path is the origin alone.
\<close>

theorem second_start_path_witness:
  "reachable (\<lambda>v. v) lob_ready
   \<and> pathGeometry (run (\<lambda>v. v) (exec (\<lambda>v. v) lob_ready Start) [Fire 1, Fire 1])
       = [Vector3 0 0 0, Vector3 0 (54 / 78125) 0]
   \<and> pathGeometry (run (\<lambda>v. v) lob_ready
        [Start, Fire 1, Fire 1, Drag (Vector3 0 0 0), Render, Start, Fire 3]) = [Vector3 0 0 0]"
proof -
  define sA where
    "sA = run (\<lambda>v. v) (exec (\<lambda>v. v) lob_ready Start) [Fire 1, Fire 1, Drag (Vector3 0 0 0), Render]"
  have first: "run (\<lambda>v. v) (exec (\<lambda>v. v) lob_ready Start) [Fire 1, Fire 1] = lob_landed"
    by (simp only: run_def foldl_Cons foldl_Nil lob_started_def [symmetric]
        lob_flying_def [symmetric] lob_landed_def [symmetric])
  have sA: "sA = render (lob_landed\<lparr>directionController_position := Vector3 0 0 0\<rparr>)"
    unfolding sA_def
    by (simp only: run_def foldl_Cons foldl_Nil lob_started_def [symmetric]
        lob_flying_def [symmetric] lob_landed_def [symmetric])
       (simp add: exec_def)
  have t: "timers (exec (\<lambda>v. v) sA Start) 3 = Some (Step, 16)"
    by (simp add: exec_Start start_fields sA render_def lob_landed_fields dt_def)
  then have tick: "is_tick (exec (\<lambda>v. v) sA Start) (Fire 3)" by (simp add: is_tick_def)
  have vel: "velocity (exec (\<lambda>v. v) sA Start) = Vector3 0 0 0"
    by (simp add: exec_Start start_fields sA render_def normalize_V3_zero multiplyScalar_def)
  have pos: "baseball_position (exec (\<lambda>v. v) sA Start) = Vector3 0 0 0"
    by (simp add: exec_Start start_fields)
  have low: "y (baseball_position (exec (\<lambda>v. v) (exec (\<lambda>v. v) sA Start) (Fire 3))) \<le> 0"
    by (simp add: exec_tick [OF tick] step_fields vel pos a_drag_zero addScaledVector_def
        a_grav_def dts_def dt_def)
  have r: "run (\<lambda>v. v) lob_ready
        [Start, Fire 1, Fire 1, Drag (Vector3 0 0 0), Render, Start, Fire 3] =
      run (\<lambda>v. v) (exec (\<lambda>v. v) (exec (\<lambda>v. v) sA Start) (Fire 3)) []"
    unfolding sA_def by (simp only: run_def foldl_Cons foldl_Nil)
  have s1: "exec (\<lambda>v. v) sA Start = run (\<lambda>v. v) (exec (\<lambda>v. v) sA Start) []"
    by (simp add: run_Nil)
  from second_start_path [OF reachable_lob(1) sA_def _ _ s1, of "[]" 3, OF _ _ tick low r]
  have "pathGeometry (run (\<lambda>v. v) lob_ready
        [Start, Fire 1, Fire 1, Drag (Vector3 0 0 0), Render, Start, Fire 3]) =
      recorded (\<lambda>v. v) (exec (\<lambda>v. v) sA Start) [Fire 3]"
    by simp
  also have "\<dots> = [Vector3 0 0 0]"
    using tick pos by simp
  finally show ?thesis
    using reachable_lob(1) first by (simp add: lob_landed_fields)
qed

lemma origin_first_exec: "origin_first s \<Longrightarrow> origin_first (exec upd s e)"
proof (cases "e = Start")
  case True
  then show ?thesis by (simp add: origin_first_def exec_Start start_fields)
next
  case ns: False
  assume inv: "origin_first s"
  show ?thesis
  proof (cases "is_tick s e")
    case True
    with ns have "pathPoints (exec upd s e) = pathPoints s @ [baseball_position s]"
      by (simp add: exec_pathPoints)
    with inv show ?thesis by (auto simp add: origin_first_def)
  next
    case False
    with ns inv show ?thesis by (simp add: origin_first_def exec_other)
  qed
qed

lemma origin_first_run: "origin_first s \<Longrightarrow> origin_first (run upd s es)"
  by (induction es arbitrary: s) (simp_all add: run_Nil run_Cons origin_first_exec)

lemma origin_first_start: "origin_first (exec upd s Start)"
  by (simp add: origin_first_def exec_Start start_fields)

section \<open>C10: the first recorded point\<close>

text \<open>
  Claim C10. Start leaves the ball at the origin with nothing recorded; a tick appends
  the position it starts from, before it moves the ball; so after a Start and any events
  the recorded points, if there are any, begin with the origin. The same holds in every
  state the page can reach.
\<close>

theorem first_point_origin:
  "pathPoints (exec upd s Start) = [] \<and> baseball_position (exec upd s Start) = Vector3 0 0 0
   \<and> (is_tick s' e \<longrightarrow> pathPoints (exec upd s' e) = pathPoints s' @ [baseball_position s'])
   \<and> (pathPoints (run upd (exec upd s Start) es) \<noteq> [] \<longrightarrow>
        hd (pathPoints (run upd (exec upd s Start) es)) = Vector3 0 0 0)
   \<and> (reachable upd s \<and> pathPoints s \<noteq> [] \<longrightarrow> hd (pathPoints s) = Vector3 0 0 0)"
proof -
  have a: "pathPoints (exec upd s' e) = pathPoints s' @ [baseball_position s']" if "is_tick s' e"
  proof -
    from that obtain j where "e = Fire j" using is_tick_cases by blast
    with that show ?thesis by (simp add: exec_tick step_fields)
  qed
  have "origin_first (run upd (exec upd s Start) es)"
    by (intro origin_first_run origin_first_start)
  then have b: "hd (pathPoints (run upd (exec upd s Start) es)) = Vector3 0 0 0"
    if "pathPoints (run upd (exec upd s Start) es) \<noteq> []"
    using that by (simp add: origin_first_def)
  have "origin_first s" if "reachable upd s"
    using that
  proof (induction rule: reachable.induct)
    case reachable_loaded
    show ?case by (simp add: origin_first_def loaded_def render_def initial_def)
  next
    case (reachable_exec s e)
    then show ?case by (simp add: origin_first_exec)
  qed
  then have c: "hd (pathPoints s) = Vector3 0 0 0" if "reachable upd s" and "pathPoints s \<noteq> []"
    using that by (simp add: origin_first_def)
  from a b c show ?thesis by (simp add: exec_Start start_fields)
qed

text \<open>The sample throw: two points recorded, the first one the origin.\<close>

theorem first_point_origin_witness:
  "is_tick lob_started (Fire 1)
   \<and> pathPoints (exec (\<lambda>v. v) lob_started (Fire 1)) = [Vector3 0 0 0]
   \<and> reachable (\<lambda>v. v) lob_landed
   \<and> pathPoints (run (\<lambda>v. v) (exec (\<lambda>v. v) lob_ready Start) [Fire 1, Fire 1]) \<noteq> []
   \<and> hd (pathPoints (run (\<lambda>v. v) (exec (\<lambda>v. v) lob_ready Start) [Fire 1, Fire 1])) = Vector3 0 0 0
   \<and> length (pathPoints (run (\<lambda>v. v) (exec (\<lambda>v. v) lob_ready Start) [Fire 1, Fire 1])) = 2"
proof -
  have first: "run (\<lambda>v. v) (exec (\<lambda>v. v) lob_ready Start) [Fire 1, Fire 1] = lob_landed"
    by (simp only: run_def foldl_Cons foldl_Nil lob_started_def [symmetric]
        lob_flying_def [symmetric] lob_landed_def [symmetric])
  have ne: "pathPoints (run (\<lambda>v. v) (exec (\<lambda>v. v) lob_ready Start) [Fire 1, Fire 1]) \<noteq> []"
    and len: "length (pathPoints (run (\<lambda>v. v) (exec (\<lambda>v. v) lob_ready Start) [Fire 1, Fire 1])) = 2"
    unfolding first by (simp_all add: lob_landed_fields)
  note T = first_point_origin [of "\<lambda>v. v" lob_ready lob_started "Fire 1" "[Fire 1, Fire 1]"]
  from T lob_started_tick
  have "pathPoints (exec (\<lambda>v. v) lob_started (Fire 1)) =
      pathPoints lob_started @ [baseball_position lob_started]"
    by blast
  then have p: "pathPoints (exec (\<lambda>v. v) lob_started (Fire 1)) = [Vector3 0 0 0]"
    by (simp add: lob_started_fields)
  from T ne
  have h: "hd (pathPoints (run (\<lambda>v. v) (exec (\<lambda>v. v) lob_ready Start) [Fire 1, Fire 1])) = Vector3 0 0 0"
    by blast
  from lob_started_tick p reachable_lob(4) ne h len show ?thesis by blast
qed

section \<open>C8: the timers Start cancels and the timers it leaves\<close>

lemma timers_ok_handle: "timers_ok s \<Longrightarrow> timers s i = Some (cb, d) \<Longrightarrow> i < next_timer s"
  unfolding timers_ok_def by blast

lemma timers_ok_Step: "timers_ok s \<Longrightarrow> timers s i = Some (Step, d) \<Longrightarrow> simulationInterval s = Some i"
  unfolding timers_ok_def by blast

lemma timers_ok_simulationInterval:
  assumes "timers_ok s" and "simulationInterval s = Some j"
  shows "j < next_timer s" and "timers s j \<noteq> Some (Transition c, d)"
  using assms unfolding timers_ok_def by blast+

lemma one_step_timer:
  assumes "timers_ok s" and "timers s i = Some (Step, d)" and "timers s j = Some (Step, d')"
  shows "i = j"
  using timers_ok_Step [OF assms(1,2)] timers_ok_Step [OF assms(1,3)] by simp

lemma start_cancels:
  assumes "timers_ok s" and "simulationInterval s = Some j"
  shows "timers (start s) j = None"
  using timers_ok_simulationInterval(1) [OF assms] assms(2) by (simp add: start_fields)

lemma start_keeps_transition:
  assumes "timers_ok s" and "timers s i = Some (Transition c, d)"
  shows "timers (start s) i = Some (Transition c, d)"
proof -
  from timers_ok_handle [OF assms] have ne: "i \<noteq> next_timer s" by simp
  show ?thesis
  proof (cases "simulationInterval s")
    case None
    with ne assms(2) show ?thesis by (simp add: start_fields)
  next
    case (Some j)
    from timers_ok_simulationInterval(2) [OF assms(1) Some] assms(2) have "i \<noteq> j" by auto
    with ne Some assms(2) show ?thesis by (simp add: start_fields)
  qed
qed

text \<open>
  Claim C8. In every reachable state at most one timer runs \<open>step\<close>, and it is the one
  whose handle \<open>simulationInterval\<close> holds. Start removes the timer of that handle and
  registers \<open>step\<close> under a fresh handle with period \<open>dt\<close>, so that after Start exactly
  the new handle runs \<open>step\<close>. A camera-transition timer that is running when Start is
  pressed is still there afterwards, unchanged, next to the new simulation timer.
\<close>

theorem start_timers:
  assumes "reachable upd s"
  shows "(\<forall>i j d d'. timers s i = Some (Step, d) \<and> timers s j = Some (Step, d') \<longrightarrow> i = j)
       \<and> (\<forall>i d. timers s i = Some (Step, d) \<longrightarrow> simulationInterval s = Some i)
       \<and> (\<forall>j. simulationInterval s = Some j \<longrightarrow> timers (exec upd s Start) j = None)
       \<and> timers (exec upd s Start) (next_timer s) = Some (Step, dt)
       \<and> timers s (next_timer s) = None
       \<and> (\<forall>i d. timers (exec upd s Start) i = Some (Step, d) \<longrightarrow> i = next_timer s)
       \<and> (\<forall>i c d. timers s i = Some (Transition c, d) \<longrightarrow>
            timers (exec upd s Start) i = Some (Transition c, d))"
proof -
  from assms have ok: "timers_ok s" by (rule reachable_timers_ok)
  then have ok': "timers_ok (start s)" by (rule timers_ok_start)
  have a: "\<forall>i j d d'. timers s i = Some (Step, d) \<and> timers s j = Some (Step, d') \<longrightarrow> i = j"
    using one_step_timer [OF ok] by blast
  have b: "\<forall>i d. timers s i = Some (Step, d) \<longrightarrow> simulationInterval s = Some i"
    using ok by (simp add: timers_ok_def)
  have c: "\<forall>j. simulationInterval s = Some j \<longrightarrow> timers (exec upd s Start) j = None"
    using start_cancels [OF ok] by (simp add: exec_Start)
  have d: "timers (exec upd s Start) (next_timer s) = Some (Step, dt)"
    by (simp add: exec_Start start_fields split: option.splits)
  have e: "timers s (next_timer s) = None"
  proof (cases "timers s (next_timer s)")
    case (Some p)
    then have "next_timer s < next_timer s" using timers_ok_handle [OF ok] by (cases p) blast
    then show ?thesis by simp
  qed simp
  have f: "\<forall>i d. timers (exec upd s Start) i = Some (Step, d) \<longrightarrow> i = next_timer s"
  proof (intro allI impI)
    fix i d assume "timers (exec upd s Start) i = Some (Step, d)"
    then have "timers (start s) i = Some (Step, d)" by (simp add: exec_Start)
    from timers_ok_Step [OF ok' this] show "i = next_timer s" by (simp add: start_fields)
  qed
  have g: "\<forall>i c d. timers s i = Some (Transition c, d) \<longrightarrow>
      timers (exec upd s Start) i = Some (Transition c, d)"
    using start_keeps_transition [OF ok] by (simp add: exec_Start)
  from a b c d e f g show ?thesis by blast
qed

text \<open>
  The sample throw has landed and its camera transition, timer 2, has made three of its
  steps when Start is pressed again: timer 2 is still there, with its three steps
  counted, next to the new simulation timer 3, and the old simulation handle 1 is free.
\<close>

theorem start_timers_witness:
  "reachable (\<lambda>v. v) (run (\<lambda>v. v) lob_landed [Fire 2, Fire 2, Fire 2])
   \<and> simulationInterval (run (\<lambda>v. v) lob_landed [Fire 2, Fire 2, Fire 2]) = Some 1
   \<and> timers (run (\<lambda>v. v) lob_landed [Fire 2, Fire 2, Fire 2, Start]) 1 = None
   \<and> timers (run (\<lambda>v. v) lob_landed [Fire 2, Fire 2, Fire 2, Start]) 2 =
       Some (Transition \<lparr>frames = 3, dist_anim = 88 / 78125,
                         center = Vector3 0 (- (44 / 78125)) 0\<rparr>, 16)
   \<and> timers (run (\<lambda>v. v) lob_landed [Fire 2, Fire 2, Fire 2, Start]) 3 = Some (Step, 16)"
proof -
  define s where "s = run (\<lambda>v. v) lob_landed [Fire 2, Fire 2, Fire 2]"
  have re: "reachable (\<lambda>v. v) s"
    unfolding s_def by (intro reachable_run reachable_lob)
  have f: "timers s 2 = Some (Transition \<lparr>frames = 3, dist_anim = 88 / 78125,
                         center = Vector3 0 (- (44 / 78125)) 0\<rparr>, 16)"
    "simulationInterval s = Some 1" "next_timer s = 3"
    by (simp_all add: s_def run_def exec_def transition_frame_fields lob_landed_fields
        length_anim_def)
  have r: "run (\<lambda>v. v) lob_landed [Fire 2, Fire 2, Fire 2, Start] = exec (\<lambda>v. v) s Start"
    unfolding s_def by (simp only: run_def foldl_Cons foldl_Nil)
  note T = start_timers [OF re]
  from T f(2) have 1: "timers (exec (\<lambda>v. v) s Start) 1 = None" by blast
  from T f(1) have 2: "timers (exec (\<lambda>v. v) s Start) 2 =
      Some (Transition \<lparr>frames = 3, dist_anim = 88 / 78125,
                         center = Vector3 0 (- (44 / 78125)) 0\<rparr>, 16)" by blast
  from T have "timers (exec (\<lambda>v. v) s Start) (next_timer s) = Some (Step, dt)" by blast
  then have 3: "timers (exec (\<lambda>v. v) s Start) 3 = Some (Step, 16)"
    by (simp add: f dt_def)
  from re f(2) 1 2 3 show ?thesis unfolding r s_def [symmetric] by blast
qed

section \<open>C6: one step of the camera transition\<close>

lemma exec_frame:
  "timers s i = Some (Transition c, d) \<Longrightarrow> exec upd s (Fire i) = transition_frame upd i c d s"
  by (simp add: exec_def)

lemma transition_view_eq:
  "transition_view c v =
     \<lparr>target = lerp (target v) (center c) 0.1,
      camera_position =
        Vector3 (x (lerp (target v) (center c) 0.1)) (max (dist_anim c) 2)
          (z (lerp (target v) (center c) 0.1)),
      camera_rotation = Vector3 0 (- 1) 1\<rparr>"
  by (cases v) (simp add: transition_view_def Let_def)

lemma lerp_twice:
  "lerp (lerp a c 0.1) c (1 - (9 / 10) ^ k) = lerp a c (1 - (9 / 10) ^ Suc k)"
  by (simp add: lerp_def field_simps)

lemma lerp_zero: "lerp a c 0 = a"
  by (simp add: lerp_def)

lemma lerp_distance:
  "add_V3 (lerp a c 0.1) (negate c) = multiplyScalar (add_V3 a (negate c)) 0.9"
  by (simp add: lerp_def add_V3_def negate_def multiplyScalar_def field_simps)

lemma frames_approach:
  "(\<And>v. target (upd v) = target v) \<Longrightarrow> timers s i = Some (Transition c, d) \<Longrightarrow>
   frames c + k \<le> length_anim \<Longrightarrow>
   target (orbit (run upd s (replicate k (Fire i)))) =
     lerp (target (orbit s)) (center c) (1 - (9 / 10) ^ k)"
proof (induction k arbitrary: s c)
  case 0
  show ?case by (simp add: run_Nil lerp_zero)
next
  case (Suc k)
  let ?s = "exec upd s (Fire i)"
  have t: "target (orbit ?s) = lerp (target (orbit s)) (center c) 0.1"
    using Suc.prems(1,2)
    by (simp add: exec_frame transition_frame_fields transition_view_eq)
  show ?case
  proof (cases k)
    case 0
    with t show ?thesis by (simp add: run_Cons run_Nil)
  next
    case (Suc k')
    with Suc.prems(3) have "Suc (frames c) \<noteq> length_anim" by simp
    with Suc.prems(2)
    have "timers ?s i = Some (Transition (c\<lparr>frames := Suc (frames c)\<rparr>), d)"
      by (simp add: exec_frame transition_frame_fields)
    from Suc.IH [OF Suc.prems(1) this] Suc.prems(3)
    have "target (orbit (run upd ?s (replicate k (Fire i)))) =
        lerp (target (orbit ?s)) (center c) (1 - (9 / 10) ^ k)"
      by simp
    then show ?thesis
      by (simp only: replicate_Suc run_Cons t lerp_twice)
  qed
qed

text \<open>
  Claim C6. A step of the camera transition hands to \<open>orbitControls.update()\<close> the view
  whose target is the old target moved one tenth of the way to \<open>center\<close>, whose camera
  position is that target with its height replaced by \<open>max dist 2\<close>, and whose rotation
  is \<open>(0, -1, 1)\<close>. The step leaves nine tenths of the distance between target and
  \<open>center\<close>, and it changes neither \<open>dist\<close> nor \<open>center\<close>, which the landing tick has
  set to the length and to one half of the landing position. Where \<open>update()\<close> leaves the
  target alone, \<open>k\<close> steps in a row leave \<open>0.9 ^ k\<close> of the distance.
\<close>

theorem transition_step:
  assumes "timers s i = Some (Transition c, d)"
  shows "orbit (exec upd s (Fire i)) =
           upd \<lparr>target = lerp (target (orbit s)) (center c) 0.1,
                camera_position =
                  Vector3 (x (lerp (target (orbit s)) (center c) 0.1)) (max (dist_anim c) 2)
                    (z (lerp (target (orbit s)) (center c) 0.1)),
                camera_rotation = Vector3 0 (- 1) 1\<rparr>
       \<and> add_V3 (lerp (target (orbit s)) (center c) 0.1) (negate (center c)) =
           multiplyScalar (add_V3 (target (orbit s)) (negate (center c))) 0.9
       \<and> (\<forall>c' d'. timers (exec upd s (Fire i)) i = Some (Transition c', d') \<longrightarrow>
            dist_anim c' = dist_anim c \<and> center c' = center c \<and> frames c' = Suc (frames c))
       \<and> (\<forall>s0 j. is_tick s0 (Fire j) \<and> y (baseball_position (exec upd s0 (Fire j))) \<le> 0 \<longrightarrow>
            timers (exec upd s0 (Fire j)) (next_timer s0) =
              Some (Transition \<lparr>frames = 0,
                      dist_anim = length_V3 (baseball_position (exec upd s0 (Fire j))),
                      center = multiplyScalar (baseball_position (exec upd s0 (Fire j))) 0.5\<rparr>, 16))
       \<and> ((\<forall>v. target (upd v) = target v) \<and> frames c + k \<le> length_anim \<longrightarrow>
            target (orbit (run upd s (replicate k (Fire i)))) =
              lerp (target (orbit s)) (center c) (1 - (9 / 10) ^ k))"
proof -
  have a: "orbit (exec upd s (Fire i)) =
           upd \<lparr>target = lerp (target (orbit s)) (center c) 0.1,
                camera_position =
                  Vector3 (x (lerp (target (orbit s)) (center c) 0.1)) (max (dist_anim c) 2)
                    (z (lerp (target (orbit s)) (center c) 0.1)),
                camera_rotation = Vector3 0 (- 1) 1\<rparr>"
    using assms by (simp add: exec_frame transition_frame_fields transition_view_eq)
  have b: "\<forall>c' d'. timers (exec upd s (Fire i)) i = Some (Transition c', d') \<longrightarrow>
            dist_anim c' = dist_anim c \<and> center c' = center c \<and> frames c' = Suc (frames c)"
    using assms by (auto simp add: exec_frame transition_frame_fields split: if_splits)
  have c: "timers (exec upd s0 (Fire j)) (next_timer s0) =
              Some (Transition \<lparr>frames = 0,
                      dist_anim = length_V3 (baseball_position (exec upd s0 (Fire j))),
                      center = multiplyScalar (baseball_position (exec upd s0 (Fire j))) 0.5\<rparr>, 16)"
    if "is_tick s0 (Fire j)" and "y (baseball_position (exec upd s0 (Fire j))) \<le> 0" for s0 j
    using that by (simp add: exec_tick step_timers split: option.splits)
  have d: "target (orbit (run upd s (replicate k (Fire i)))) =
              lerp (target (orbit s)) (center c) (1 - (9 / 10) ^ k)"
    if "\<forall>v. target (upd v) = target v" and "frames c + k \<le> length_anim"
    using that assms frames_approach [of upd s i c d k] by simp
  from a lerp_distance b c d show ?thesis by blast
qed

text \<open>
  The camera transition of the sample throw. The ball has landed at
  \<open>(0, -88/78125, 0)\<close>, where the target is; \<open>center\<close> is half of that and \<open>dist\<close> is
  less than 2. The first step moves the target to \<open>(0, -418/390625, 0)\<close> and puts the
  camera at height 2 above it; after two steps the target is at
  \<open>(0, -1991/1953125, 0)\<close>.
\<close>

theorem transition_step_witness:
  "timers lob_landed 2 =
     Some (Transition \<lparr>frames = 0, dist_anim = 88 / 78125,
                       center = Vector3 0 (- (44 / 78125)) 0\<rparr>, 16)
   \<and> orbit (exec (\<lambda>v. v) lob_landed (Fire 2)) =
       \<lparr>target = Vector3 0 (- (418 / 390625)) 0, camera_position = Vector3 0 2 0,
        camera_rotation = Vector3 0 (- 1) 1\<rparr>
   \<and> is_tick lob_flying (Fire 1)
   \<and> y (baseball_position (exec (\<lambda>v. v) lob_flying (Fire 1))) \<le> 0
   \<and> timers (exec (\<lambda>v. v) lob_flying (Fire 1)) 2 =
       Some (Transition \<lparr>frames = 0, dist_anim = 88 / 78125,
                         center = Vector3 0 (- (44 / 78125)) 0\<rparr>, 16)
   \<and> target (orbit (run (\<lambda>v. v) lob_landed (replicate 2 (Fire 2)))) =
       Vector3 0 (- (1991 / 1953125)) 0"
proof -
  have t: "timers lob_landed 2 =
     Some (Transition \<lparr>frames = 0, dist_anim = 88 / 78125,
                       center = Vector3 0 (- (44 / 78125)) 0\<rparr>, 16)"
    by (simp add: lob_landed_fields)
  have low: "y (baseball_position (exec (\<lambda>v. v) lob_flying (Fire 1))) \<le> 0"
    using lob_landed_position by (simp add: lob_landed_def)
  note T = transition_step [OF t, of "\<lambda>v. v" 2]
  from T have "orbit (exec (\<lambda>v. v) lob_landed (Fire 2)) =
      \<lparr>target = lerp (target (orbit lob_landed)) (Vector3 0 (- (44 / 78125)) 0) 0.1,
       camera_position =
         Vector3 (x (lerp (target (orbit lob_landed)) (Vector3 0 (- (44 / 78125)) 0) 0.1))
           (max (88 / 78125) 2)
           (z (lerp (target (orbit lob_landed)) (Vector3 0 (- (44 / 78125)) 0) 0.1)),
       camera_rotation = Vector3 0 (- 1) 1\<rparr>"
    by simp
  then have a: "orbit (exec (\<lambda>v. v) lob_landed (Fire 2)) =
       \<lparr>target = Vector3 0 (- (418 / 390625)) 0, camera_position = Vector3 0 2 0,
        camera_rotation = Vector3 0 (- 1) 1\<rparr>"
    by (simp add: lob_landed_fields lerp_def)
  from T have "target (orbit (run (\<lambda>v. v) lob_landed (replicate 2 (Fire 2)))) =
      lerp (target (orbit lob_landed)) (Vector3 0 (- (44 / 78125)) 0) (1 - (9 / 10) ^ 2)"
    by (simp add: length_anim_def)
  then have b: "target (orbit (run (\<lambda>v. v) lob_landed (replicate 2 (Fire 2)))) =
       Vector3 0 (- (1991 / 1953125)) 0"
    by (simp add: lob_landed_fields lerp_def power2_eq_square)
  from T lob_flying_tick low
  have "timers (exec (\<lambda>v. v) lob_flying (Fire 1)) (next_timer lob_flying) =
      Some (Transition \<lparr>frames = 0,
              dist_anim = length_V3 (baseball_position (exec (\<lambda>v. v) lob_flying (Fire 1))),
              center = multiplyScalar (baseball_position (exec (\<lambda>v. v) lob_flying (Fire 1))) 0.5\<rparr>,
            16)"
    by blast
  then have c: "timers (exec (\<lambda>v. v) lob_flying (Fire 1)) 2 =
       Some (Transition \<lparr>frames = 0, dist_anim = 88 / 78125,
                         center = Vector3 0 (- (44 / 78125)) 0\<rparr>, 16)"
    unfolding lob_landed_def [symmetric] lob_landed_position
    by (simp add: lob_flying_fields length_V3_vertical multiplyScalar_def)
  from t a lob_flying_tick low c b show ?thesis by blast
qed

section \<open>C5: the forty steps of the camera transition\<close>

lemma exec_free_handle:
  assumes "timers s i = None" and "i < next_timer s"
  shows "timers (exec upd s e) i = None" and "i < next_timer (exec upd s e)"
proof -
  have "timers (exec upd s e) i = None \<and> i < next_timer (exec upd s e)"
  proof (cases e)
    case Start
    with assms show ?thesis by (simp add: exec_def start_fields split: option.splits)
  next
    case (Fire j)
    show ?thesis
    proof (cases "timers s j")
      case None
      with Fire assms show ?thesis by (simp add: exec_def)
    next
      case (Some p)
      obtain cb d where p: "p = (cb, d)" by (cases p)
      show ?thesis
      proof (cases cb)
        case Step
        with Fire Some p assms show ?thesis
          by (simp add: exec_def step_timers step_fields split: option.splits)
      next
        case (Transition c)
        with Some p assms have "j \<noteq> i" by auto
        with Fire Some p Transition assms show ?thesis
          by (simp add: exec_def transition_frame_fields)
      qed
    qed
  qed (use assms in \<open>simp_all add: exec_def render_def\<close>)
  then show "timers (exec upd s e) i = None" and "i < next_timer (exec upd s e)" by simp_all
qed

lemma frames_stopped:
  "timers s i = None \<Longrightarrow> i < next_timer s \<Longrightarrow>
   frames_executed upd i s es = 0 \<and> timers (run upd s es) i = None"
proof (induction es arbitrary: s)
  case Nil
  then show ?case by (simp add: run_Nil)
next
  case (Cons e es)
  from Cons.prems have "\<not> is_frame i s e"
    by (simp add: is_frame_def split: event.splits)
  with Cons.IH [OF exec_free_handle [OF Cons.prems]] show ?case
    by (simp add: run_Cons)
qed

lemma exec_keeps_transition:
  assumes ok: "timers_ok s" and t: "timers s i = Some (Transition c, d)" and e: "e \<noteq> Fire i"
  shows "timers (exec upd s e) i = Some (Transition c, d)"
proof (cases e)
  case Start
  with ok t show ?thesis by (simp add: exec_def start_keeps_transition)
next
  case (Fire j)
  with e have ji: "j \<noteq> i" by simp
  show ?thesis
  proof (cases "timers s j")
    case None
    with Fire t show ?thesis by (simp add: exec_def)
  next
    case (Some p)
    obtain cb d' where p: "p = (cb, d')" by (cases p)
    show ?thesis
    proof (cases cb)
      case Step
      from timers_ok_handle [OF ok t] have ne: "i \<noteq> next_timer s" by simp
      from Some p Step have sim: "simulationInterval s = Some j"
        using timers_ok_Step [OF ok] by simp
      with Fire Some p Step t ji ne show ?thesis
        by (simp add: exec_def step_timers)
    next
      case (Transition c')
      with Fire Some p t ji show ?thesis
        by (simp add: exec_def transition_frame_fields)
    qed
  qed
qed (use t in \<open>simp_all add: exec_def render_def\<close>)

lemma last_frame:
  assumes "timers s i = Some (Transition c, d)" and "Suc (frames c) = length_anim"
  shows "timers (exec upd s (Fire i)) i = None"
    and "orbitControls_enabled (exec upd s (Fire i)) = True"
    and "i < next_timer s \<Longrightarrow> i < next_timer (exec upd s (Fire i))"
  using assms by (simp_all add: exec_frame transition_frame_fields)

lemma inner_frame:
  assumes "timers s i = Some (Transition c, d)" and "Suc (frames c) \<noteq> length_anim"
  shows "timers (exec upd s (Fire i)) i = Some (Transition (c\<lparr>frames := Suc (frames c)\<rparr>), d)"
  using assms by (simp add: exec_frame transition_frame_fields)

lemma frames_bound:
  "timers_ok s \<Longrightarrow> timers s i = Some (Transition c, d) \<Longrightarrow> frames c < length_anim \<Longrightarrow>
   frames c + frames_executed upd i s es \<le> length_anim \<and>
   (if frames c + frames_executed upd i s es = length_anim
    then timers (run upd s es) i = None
    else (\<exists>c'. timers (run upd s es) i = Some (Transition c', d) \<and>
            frames c' = frames c + frames_executed upd i s es))"
proof (induction es arbitrary: s c)
  case Nil
  then show ?case by (simp add: run_Nil)
next
  case (Cons e es)
  show ?case
  proof (cases "e = Fire i")
    case True
    with Cons.prems(2) have fr: "is_frame i s e" by (simp add: is_frame_def)
    show ?thesis
    proof (cases "Suc (frames c) = length_anim")
      case last: True
      from timers_ok_handle [OF Cons.prems(1,2)] have lt: "i < next_timer s" .
      have "timers (exec upd s e) i = None" and "i < next_timer (exec upd s e)"
        using last_frame [OF Cons.prems(2) last, of upd] lt True by simp_all
      from frames_stopped [OF this, of upd es] True fr last show ?thesis
        by (simp add: run_Cons)
    next
      case False
      let ?c = "c\<lparr>frames := Suc (frames c)\<rparr>"
      from False Cons.prems(3) have lt: "frames ?c < length_anim" by simp
      have ok': "timers_ok (exec upd s e)"
        using Cons.prems(1) by (rule timers_ok_exec)
      have t': "timers (exec upd s e) i = Some (Transition ?c, d)"
        using inner_frame [OF Cons.prems(2) False] True by simp
      from Cons.IH [OF ok' t' lt]
        True fr show ?thesis
        by (auto simp add: run_Cons split: if_splits)
    qed
  next
    case False
    then have nf: "\<not> is_frame i s e" by (simp add: is_frame_def split: event.splits)
    have ok': "timers_ok (exec upd s e)"
      using Cons.prems(1) by (rule timers_ok_exec)
    have t': "timers (exec upd s e) i = Some (Transition c, d)"
      using Cons.prems(1,2) False by (rule exec_keeps_transition)
    from Cons.IH [OF ok' t' Cons.prems(3)]
      nf show ?thesis
      by (auto simp add: run_Cons split: if_splits)
  qed
qed

lemma frames_in_a_row:
  "timers s i = Some (Transition c, d) \<Longrightarrow> frames c + k \<le> length_anim \<Longrightarrow>
   frames_executed upd i s (replicate k (Fire i)) = k"
proof (induction k arbitrary: s c)
  case 0
  show ?case by simp
next
  case (Suc k)
  from Suc.prems(1) have fr: "is_frame i s (Fire i)" by (simp add: is_frame_def)
  show ?case
  proof (cases k)
    case 0
    with fr show ?thesis by simp
  next
    case (Suc k')
    with Suc.prems(2) have "Suc (frames c) \<noteq> length_anim" by simp
    from Suc.IH [OF inner_frame [OF Suc.prems(1) this]] Suc.prems(2) fr show ?thesis
      by simp
  qed
qed

lemma next_timer_exec: "next_timer s \<le> next_timer (exec upd s e)"
proof (cases e)
  case (Fire j)
  show ?thesis
  proof (cases "timers s j")
    case None
    with Fire show ?thesis by (simp add: exec_def)
  next
    case (Some p)
    obtain cb d where "p = (cb, d)" by (cases p)
    with Fire Some show ?thesis
      by (cases cb) (simp_all add: exec_def step_fields transition_frame_fields)
  qed
qed (simp_all add: exec_def render_def start_fields)

lemma next_timer_run: "next_timer s \<le> next_timer (run upd s es)"
proof (induction es arbitrary: s)
  case Nil
  show ?case by (simp add: run_Nil)
next
  case (Cons e es)
  from next_timer_exec [of s upd e] Cons.IH [of "exec upd s e"] show ?case
    by (simp add: run_Cons)
qed

lemma frames_executed_append:
  "frames_executed upd i s (es @ es') =
     frames_executed upd i s es + frames_executed upd i (run upd s es) es'"
  by (induction es arbitrary: s) (simp_all add: run_Nil run_Cons)

lemma landing_transition:
  assumes "is_tick s (Fire j)" and "y (baseball_position (exec upd s (Fire j))) \<le> 0"
  shows "orbitControls_enabled (exec upd s (Fire j)) = False"
    and "timers (exec upd s (Fire j)) (next_timer s) =
           Some (Transition \<lparr>frames = 0,
                   dist_anim = length_V3 (baseball_position (exec upd s (Fire j))),
                   center = multiplyScalar (baseball_position (exec upd s (Fire j))) 0.5\<rparr>, 16)"
    and "next_timer (exec upd s (Fire j)) = Suc (next_timer s)"
  using assms by (simp_all add: exec_tick step_fields step_timers split: option.splits)

text \<open>
  Claim C5. At a landing tick, whatever the landing position, orbit control is disabled
  and the transition is registered under a fresh handle with period 16 and no step
  counted. Along any events that follow, at most 40 steps of this transition are
  executed; the timer is gone exactly when 40 have been executed, and until then it is
  registered with the number of executed steps as its count; the step that follows 39
  executed steps removes the timer and enables orbit control. Fired \<open>n\<close> times in a row,
  the timer executes \<open>min n 40\<close> steps.
\<close>

theorem camera_transition_steps:
  assumes "reachable upd s"
    and "is_tick s (Fire j)"
    and "y (baseball_position (exec upd s (Fire j))) \<le> 0"
    and "s0 = exec upd s (Fire j)"
    and "i = next_timer s"
  shows "orbitControls_enabled s0 = False
       \<and> (\<exists>c. timers s0 i = Some (Transition c, 16) \<and> frames c = 0)
       \<and> frames_executed upd i s0 es \<le> 40
       \<and> (frames_executed upd i s0 es = 40 \<longleftrightarrow> timers (run upd s0 es) i = None)
       \<and> (frames_executed upd i s0 es < 40 \<longrightarrow>
            (\<exists>c. timers (run upd s0 es) i = Some (Transition c, 16) \<and>
                 frames c = frames_executed upd i s0 es))
       \<and> (frames_executed upd i s0 es = 39 \<longrightarrow>
            orbitControls_enabled (run upd s0 (es @ [Fire i])) = True \<and>
            timers (run upd s0 (es @ [Fire i])) i = None)
       \<and> frames_executed upd i s0 (replicate n (Fire i)) = min n 40"
proof -
  define c0 where "c0 = \<lparr>frames = 0, dist_anim = length_V3 (baseball_position s0),
                         center = multiplyScalar (baseball_position s0) 0.5\<rparr>"
  from assms(1) have "timers_ok s" by (rule reachable_timers_ok)
  then have ok0: "timers_ok s0" unfolding assms(4) by (rule timers_ok_exec)
  note land = landing_transition [OF assms(2,3)]
  have en: "orbitControls_enabled s0 = False"
    using land(1) by (simp add: assms(4))
  have t0: "timers s0 i = Some (Transition c0, 16)"
    using land(2) by (simp add: assms(4,5) c0_def)
  have f0: "frames c0 = 0" by (simp add: c0_def)
  have lt0: "frames c0 < length_anim" by (simp add: c0_def length_anim_def)
  have below: "i < next_timer s0"
    using land(3) by (simp add: assms(4,5))
  have bound: "frames_executed upd i s0 es' \<le> 40 \<and>
      (if frames_executed upd i s0 es' = 40 then timers (run upd s0 es') i = None
       else (\<exists>c'. timers (run upd s0 es') i = Some (Transition c', 16) \<and>
               frames c' = frames_executed upd i s0 es'))" for es'
    using frames_bound [OF ok0 t0 lt0, of upd es'] unfolding f0 length_anim_def
    by (auto split: if_splits)
  have a: "frames_executed upd i s0 es \<le> 40"
    using bound [of es] by simp
  have b: "frames_executed upd i s0 es = 40 \<longleftrightarrow> timers (run upd s0 es) i = None"
    using bound [of es] by (auto split: if_splits)
  have c: "\<exists>c. timers (run upd s0 es) i = Some (Transition c, 16) \<and>
               frames c = frames_executed upd i s0 es"
    if "frames_executed upd i s0 es < 40"
    using bound [of es] that by (auto split: if_splits)
  have d: "orbitControls_enabled (run upd s0 (es @ [Fire i])) = True \<and>
           timers (run upd s0 (es @ [Fire i])) i = None"
    if "frames_executed upd i s0 es = 39"
  proof -
    from c that obtain c' where t: "timers (run upd s0 es) i = Some (Transition c', 16)"
      and "frames c' = 39" by auto
    then have "Suc (frames c') = length_anim" by (simp add: length_anim_def)
    from last_frame(1,2) [OF t this, of upd] show ?thesis
      by (simp add: run_append run_Cons run_Nil)
  qed
  have e: "frames_executed upd i s0 (replicate n (Fire i)) = min n 40"
  proof (cases "n \<le> 40")
    case True
    with frames_in_a_row [OF t0, of n upd] show ?thesis
      by (simp add: f0 length_anim_def)
  next
    case False
    then have n: "replicate n (Fire i) = replicate 40 (Fire i) @ replicate (n - 40) (Fire i)"
      by (simp add: replicate_add [symmetric])
    have forty: "frames_executed upd i s0 (replicate 40 (Fire i)) = 40"
      using frames_in_a_row [OF t0, of 40 upd] by (simp add: f0 length_anim_def)
    with bound [of "replicate 40 (Fire i)"]
    have gone: "timers (run upd s0 (replicate 40 (Fire i))) i = None" by simp
    have "i < next_timer (run upd s0 (replicate 40 (Fire i)))"
      using below next_timer_run [of s0 upd "replicate 40 (Fire i)"] by simp
    from frames_stopped [OF gone this, of upd "replicate (n - 40) (Fire i)"] forty False
    show ?thesis
      by (simp add: n frames_executed_append)
  qed
  from en t0 f0 a b c d e show ?thesis by blast
qed

text \<open>
  The sample throw lands at the second firing of timer 1, and its transition is timer 2.
  Fired 39 times it has executed 39 steps; the fortieth firing removes it and enables
  orbit control, and of 41 firings only 40 are steps.
\<close>

theorem camera_transition_steps_witness:
  "reachable (\<lambda>v. v) lob_flying \<and> is_tick lob_flying (Fire 1)
   \<and> y (baseball_position (exec (\<lambda>v. v) lob_flying (Fire 1))) \<le> 0
   \<and> next_timer lob_flying = 2
   \<and> frames_executed (\<lambda>v. v) 2 lob_landed (replicate 39 (Fire 2)) = 39
   \<and> timers (run (\<lambda>v. v) lob_landed (replicate 39 (Fire 2) @ [Fire 2])) 2 = None
   \<and> orbitControls_enabled (run (\<lambda>v. v) lob_landed (replicate 39 (Fire 2) @ [Fire 2])) = True
   \<and> frames_executed (\<lambda>v. v) 2 lob_landed (replicate 41 (Fire 2)) = 40"
proof -
  have low: "y (baseball_position (exec (\<lambda>v. v) lob_flying (Fire 1))) \<le> 0"
    using lob_landed_position by (simp add: lob_landed_def)
  have nt: "2 = next_timer lob_flying"
    by (simp add: lob_flying_fields)
  note T = camera_transition_steps [OF reachable_lob(3) lob_flying_tick low lob_landed_def nt]
  from T [of "[]" 39]
  have n39: "frames_executed (\<lambda>v. v) 2 lob_landed (replicate 39 (Fire 2)) = 39" by simp
  from T [of "replicate 39 (Fire 2)" 0] n39
  have last: "orbitControls_enabled (run (\<lambda>v. v) lob_landed (replicate 39 (Fire 2) @ [Fire 2])) = True"
    "timers (run (\<lambda>v. v) lob_landed (replicate 39 (Fire 2) @ [Fire 2])) 2 = None"
    by blast+
  from T [of "[]" 41]
  have n41: "frames_executed (\<lambda>v. v) 2 lob_landed (replicate 41 (Fire 2)) = 40" by simp
  from reachable_lob(3) lob_flying_tick low nt n39 last n41 show ?thesis by simp
qed

end
